theory Spec2Isabelle
  imports Complex_Main
begin

section \<open>The BDF solver of \<^verbatim>\<open>jax_reactor/solver/bdf.py\<close>\<close>

text \<open>
  Conventions of the embedding.
  \<^item> A float64 is a \<open>real\<close>: rounding and infinities are left out. The one NaN the
    solver makes itself (the error ratio of an attempt whose Newton iteration did not
    converge) is kept: an error ratio is a \<open>real option\<close> and \<open>None\<close> is NaN, every
    comparison with it being false.
  \<^item> Integers (counters, the order, the status code) are \<open>int\<close>.
  \<^item> A vector is a \<open>real list\<close>, a matrix the list of its rows.
  \<^item> \<open>jax.lax.while_loop\<close> is a recursive function in the option monad: \<open>None\<close> is a
    loop that never ends.
  \<^item> The module \<^verbatim>\<open>bdf_util\<close> is imported by \<^verbatim>\<open>bdf.py\<close> but is not part of the
    sources at hand. Its functions and constants are the fields of the record
    \<open>bdf_util\<close>, a parameter of everything below; \<open>next_step_size\<close> alone is written
    out, from the formula of the specification.
\<close>

type_synonym vec = "real list"
type_synonym mat = "real list list"

subsection \<open>Array primitives of jax.numpy\<close>

text \<open>\<^verbatim>\<open>x[i]\<close> on a jax array: a negative index counts from the end, and an index out
  of range is clamped to the nearest valid one.\<close>

definition jax_index :: "'a list \<Rightarrow> int \<Rightarrow> 'a" where
  "jax_index xs i =
     (let n = int (length xs);
          j = (if i < 0 then i + n else i)
      in xs ! nat (max 0 (min (n - 1) j)))"

text \<open>\<^verbatim>\<open>jax.ops.index_update(x, jax.ops.index[n], v)\<close> with \<open>0 \<le> n\<close>: the result is a new
  array, and an update out of range is dropped (as is \<open>list_update\<close>).\<close>

definition index_update :: "'a list \<Rightarrow> int \<Rightarrow> 'a \<Rightarrow> 'a list" where
  "index_update xs n v = (if 0 \<le> n then xs[nat n := v] else xs)"

text \<open>\<^verbatim>\<open>np.where(c, x, y)\<close> on scalars, and on arrays with a scalar condition.\<close>

definition np_where :: "bool \<Rightarrow> 'a \<Rightarrow> 'a \<Rightarrow> 'a" where
  "np_where c x y = (if c then x else y)"

text \<open>\<^verbatim>\<open>np.clip(x, lo, hi)\<close> is \<^verbatim>\<open>minimum(maximum(x, lo), hi)\<close>.\<close>

definition np_clip :: "'a::linorder \<Rightarrow> 'a \<Rightarrow> 'a \<Rightarrow> 'a" where
  "np_clip x lo hi = min (max x lo) hi"

text \<open>\<^verbatim>\<open>a < b\<close> on floats either of which may be NaN.\<close>

fun nan_less :: "real option \<Rightarrow> real option \<Rightarrow> bool" where
  "nan_less (Some a) (Some b) = (a < b)"
| "nan_less _ _ = False"

text \<open>\<^verbatim>\<open>np.where(c, x, y)\<close> where \<open>x\<close> is a float that may be NaN and the result is kept
  in a field that the model holds as a \<open>real\<close>. Selecting a NaN cannot be represented;
  \<open>maybe_step\<close> never does it (lemmas \<open>rejected_ratio_not_nan\<close> and
  \<open>adapting_ratio_not_nan\<close>): the definition is total, and keeps \<open>y\<close> there.\<close>

fun where_nan :: "bool \<Rightarrow> real option \<Rightarrow> real \<Rightarrow> real" where
  "where_nan c (Some x) y = (if c then x else y)"
| "where_nan c None y = y"

text \<open>\<^verbatim>\<open>np.linalg.norm\<close> of a vector.\<close>

definition l2_norm :: "vec \<Rightarrow> real" where
  "l2_norm v = sqrt (sum_list (map (\<lambda>x. x * x) v))"

subsection \<open>The named tuples\<close>

record BDFDiagnostics =
  num_jacobian_evaluations :: int
  num_matrix_factorizations :: int
  num_ode_fn_evaluations :: int
  status :: int

record BDFIterand =
  jacobian_mat :: mat
  jacobian_is_up_to_date :: bool
  new_step_size :: real
  num_steps :: int
  num_steps_same_size :: int
  should_update_jacobian :: bool
  should_update_step_size :: bool
  time :: real
  unitary :: mat
  upper :: mat

record BDFSolverInternalState =
  backward_differences :: mat
  order :: int
  step_size :: real

record Results =
  times :: vec
  states :: mat
  diagnostics :: BDFDiagnostics
  solver_internal_state :: BDFSolverInternalState

subsection \<open>The module bdf\_util\<close>

text \<open>The functions and constants of \<^verbatim>\<open>bdf_util\<close> that \<^verbatim>\<open>bdf.py\<close> uses, with the
  argument order of their call sites. \<open>newton\<close> returns
  \<open>(converged, next_backward_difference, next_state_vec, num_iters)\<close>.\<close>

record bdf_util =
  MAX_ORDER :: int
  ORDERS :: "int list"
  RECIPROCAL_SUMS :: vec
  interpolate_backward_differences :: "mat \<Rightarrow> int \<Rightarrow> real \<Rightarrow> mat"
  update_backward_differences :: "mat \<Rightarrow> vec \<Rightarrow> vec \<Rightarrow> int \<Rightarrow> mat"
  newton_qr :: "mat \<Rightarrow> real \<Rightarrow> real \<Rightarrow> mat \<times> mat"
  newton :: "mat \<Rightarrow> int \<Rightarrow> real \<Rightarrow> (real \<Rightarrow> vec \<Rightarrow> vec) \<Rightarrow> int \<Rightarrow> real \<Rightarrow> real
               \<Rightarrow> real \<Rightarrow> mat \<Rightarrow> mat \<Rightarrow> bool \<times> vec \<times> vec \<times> int"
  error_ratio :: "vec \<Rightarrow> real \<Rightarrow> vec \<Rightarrow> real"
  get_ode_fn_vec :: "(real \<Rightarrow> vec \<Rightarrow> vec) \<Rightarrow> real \<Rightarrow> vec \<Rightarrow> real \<Rightarrow> vec \<Rightarrow> vec"
  first_step_size :: "real \<Rightarrow> real \<Rightarrow> vec \<Rightarrow> real \<Rightarrow> (real \<Rightarrow> vec \<Rightarrow> vec) \<Rightarrow> real
               \<Rightarrow> real \<Rightarrow> real"

text \<open>Modelled from the spec: \<^verbatim>\<open>bdf_util.next_step_size\<close> is missing from the sources;
  the specification gives
  \<^verbatim>\<open>newStep = step * clamp(safetyFactor * errorRatio^(-1/(order+1)), minStepSizeFactor, maxStepSizeFactor)\<close>.
  The power is \<open>powr\<close> on the reals.\<close>

definition next_step_size :: "real \<Rightarrow> int \<Rightarrow> real \<Rightarrow> real \<Rightarrow> real \<Rightarrow> real \<Rightarrow> real" where
  "next_step_size step_size0 order0 error_ratio0 safety_factor0 min_factor max_factor =
     step_size0 *
       np_clip (safety_factor0 * (error_ratio0 powr (- 1 / (real_of_int order0 + 1))))
               min_factor max_factor"

text \<open>The same on an error ratio that may be NaN: the result is then NaN.\<close>

definition next_step_size_nan ::
  "real \<Rightarrow> int \<Rightarrow> real option \<Rightarrow> real \<Rightarrow> real \<Rightarrow> real \<Rightarrow> real option" where
  "next_step_size_nan step_size0 order0 error_ratio0 safety_factor0 min_factor max_factor =
     map_option (\<lambda>r. next_step_size step_size0 order0 r safety_factor0 min_factor max_factor)
       error_ratio0"

subsection \<open>The solver object\<close>

text \<open>The attributes of a \<^verbatim>\<open>BDF\<close> instance: the constructor's arguments, and what
  \<^verbatim>\<open>_initialize_solver_internal_state\<close> stores in \<^verbatim>\<open>self.p\<close> and \<^verbatim>\<open>self.e\<close> (of
  \<^verbatim>\<open>self.p\<close> only \<open>ode_fn_vec\<close> is kept, its other fields being copies of the
  constructor's arguments). \<open>max_num_steps\<close> is \<open>None\<close> for the default \<^verbatim>\<open>np.inf\<close>.\<close>

record BDF =
  rtol :: real
  atol :: real
  safety_factor :: real
  min_step_size_factor :: real
  max_step_size_factor :: real
  max_num_steps :: "int option"
  max_order :: int
  max_num_newton_iters :: int
  newton_tol_factor :: real
  newton_step_size_factor :: real
  bdf_coefficients :: vec
  evaluate_jacobian_lazily :: bool
  ode_fn_vec :: "real \<Rightarrow> vec \<Rightarrow> vec"
  newton_coefficients :: vec
  error_coefficients :: vec

subsection \<open>\_get\_coefficients\<close>

text \<open>Lines 328-335. The arithmetic is elementwise on arrays of one shape.\<close>

definition get_coefficients :: "bdf_util \<Rightarrow> vec \<Rightarrow> vec \<times> vec" where
  "get_coefficients U bdf_coefficients0 =
     (let newton_coefficients0 =
            map (\<lambda>x. 1 / x) (map2 (*) (map (\<lambda>b. 1 - b) bdf_coefficients0) (RECIPROCAL_SUMS U));
          error_coefficients0 =
            map2 (+) (map2 (*) bdf_coefficients0 (RECIPROCAL_SUMS U))
                     (map (\<lambda>k. 1 / real_of_int (k + 1)) (ORDERS U))
      in (newton_coefficients0, error_coefficients0))"

subsection \<open>step: the prologue\<close>

text \<open>Lines 88-93 of \<^verbatim>\<open>step\<close>: the pending step size is cut so as not to pass
  \<open>next_time\<close>.\<close>

definition step_clamp :: "real \<Rightarrow> BDFIterand \<Rightarrow> BDFIterand" where
  "step_clamp next_time iterand =
     (let distance_to_next_time = next_time - time iterand;
          overstepped = new_step_size iterand > distance_to_next_time
      in iterand\<lparr>
           new_step_size := np_where overstepped distance_to_next_time (new_step_size iterand),
           should_update_step_size := overstepped \<or> should_update_step_size iterand\<rparr>)"

text \<open>Lines 104-117 of \<^verbatim>\<open>step\<close>: the Jacobian and its counter. The condition is
  \<^verbatim>\<open>self._evaluate_jacobian_lazily and jacobian_is_up_to_date\<close>.\<close>

definition step_jacobian ::
  "BDF \<Rightarrow> (real \<Rightarrow> vec \<Rightarrow> mat) \<Rightarrow> BDFDiagnostics \<Rightarrow> BDFIterand \<Rightarrow> BDFSolverInternalState
     \<Rightarrow> BDFDiagnostics \<times> BDFIterand" where
  "step_jacobian self jacobian_fn diagnostics0 iterand solver_internal_state0 =
     (let jacobian_is_up_to_date0 = jacobian_is_up_to_date iterand;
          jacobian_mat0 =
            np_where (evaluate_jacobian_lazily self \<and> jacobian_is_up_to_date0)
              (jacobian_mat iterand)
              (jacobian_fn (time iterand)
                 (jax_index (backward_differences solver_internal_state0) 0));
          num_jacobian_evaluations0 =
            np_where (evaluate_jacobian_lazily self \<and> jacobian_is_up_to_date0)
              (num_jacobian_evaluations diagnostics0)
              (num_jacobian_evaluations diagnostics0 + 1)
      in (diagnostics0\<lparr>num_jacobian_evaluations := num_jacobian_evaluations0\<rparr>,
          iterand\<lparr>jacobian_mat := jacobian_mat0,
                  jacobian_is_up_to_date := jacobian_is_up_to_date0\<rparr>))"

subsection \<open>maybe\_step\<close>

type_synonym maybe_step_state =
  "bool \<times> BDFDiagnostics \<times> BDFIterand \<times> BDFSolverInternalState"

text \<open>The components of the tuple that \<^verbatim>\<open>maybe_step\<close> takes and returns.\<close>

definition ms_accepted :: "maybe_step_state \<Rightarrow> bool" where
  "ms_accepted = (\<lambda>(accepted0, diagnostics0, iterand, solver_internal_state0). accepted0)"

definition ms_diagnostics :: "maybe_step_state \<Rightarrow> BDFDiagnostics" where
  "ms_diagnostics = (\<lambda>(accepted0, diagnostics0, iterand, solver_internal_state0). diagnostics0)"

definition ms_iterand :: "maybe_step_state \<Rightarrow> BDFIterand" where
  "ms_iterand = (\<lambda>(accepted0, diagnostics0, iterand, solver_internal_state0). iterand)"

definition ms_state :: "maybe_step_state \<Rightarrow> BDFSolverInternalState" where
  "ms_state = (\<lambda>(accepted0, diagnostics0, iterand, solver_internal_state0).
     solver_internal_state0)"

text \<open>The local variables of \<^verbatim>\<open>maybe_step\<close> as they stand after line 230, before the
  scan over the neighbouring orders.\<close>

record attempt =
  at_status :: int
  at_backward_differences :: mat
  at_step_size :: real
  at_num_steps_same_size :: int
  at_unitary :: mat
  at_upper :: mat
  at_num_matrix_factorizations :: int
  at_tol :: vec
  at_newton_converged :: bool
  at_num_steps :: int
  at_num_ode_fn_evaluations :: int
  at_new_step_size :: real
  at_should_update_step_size :: bool
  at_should_update_jacobian :: bool
  at_error_ratio :: "real option"
  at_accepted :: bool
  at_time :: real
  at_jacobian_is_up_to_date :: bool

text \<open>Lines 138-230 of \<^verbatim>\<open>maybe_step\<close>. Nothing is skipped when the budget of steps is
  used up: line 149 only sets \<open>status\<close>.\<close>

definition maybe_step_attempt ::
  "bdf_util \<Rightarrow> BDF \<Rightarrow> BDFDiagnostics \<Rightarrow> BDFIterand \<Rightarrow> BDFSolverInternalState \<Rightarrow> attempt" where
  "maybe_step_attempt U self diagnostics0 iterand solver_internal_state0 =
     (let order0 = order solver_internal_state0;
          status1 = np_where (Some (num_steps iterand) = max_num_steps self) (- 1) 0;
          backward_differences1 =
            np_where (should_update_step_size iterand)
              (interpolate_backward_differences U (backward_differences solver_internal_state0)
                 order0 (new_step_size iterand / step_size solver_internal_state0))
              (backward_differences solver_internal_state0);
          step_size1 = np_where (should_update_step_size iterand) (new_step_size iterand)
                         (step_size solver_internal_state0);
          num_steps_same_size1 = np_where (should_update_step_size iterand) 0
                                   (num_steps_same_size iterand);
          (unitary1, upper1) =
            newton_qr U (jacobian_mat iterand) (jax_index (newton_coefficients self) order0)
              step_size1;
          num_matrix_factorizations1 = num_matrix_factorizations diagnostics0 + 1;
          tol = map (\<lambda>y. atol self + rtol self * \<bar>y\<bar>) (jax_index backward_differences1 0);
          newton_tol = newton_tol_factor self * l2_norm tol;
          (newton_converged, next_backward_difference, next_state_vec, newton_num_iters) =
            newton U backward_differences1 (max_num_newton_iters self)
              (jax_index (newton_coefficients self) order0) (ode_fn_vec self) order0 step_size1
              (time iterand) newton_tol unitary1 upper1;
          num_steps1 = num_steps iterand + 1;
          num_ode_fn_evaluations1 = num_ode_fn_evaluations diagnostics0 + newton_num_iters;
          newton_failed = (\<not> newton_converged);
          should_update_step_size1 = (newton_failed \<and> jacobian_is_up_to_date iterand);
          new_step_size1 =
            step_size1 * np_where should_update_step_size1 (newton_step_size_factor self) 1;
          should_update_jacobian1 = (newton_failed \<and> \<not> jacobian_is_up_to_date iterand);
          error_ratio1 =
            np_where newton_converged
              (Some (error_ratio U next_backward_difference
                       (jax_index (error_coefficients self) order0) tol))
              None;
          accepted1 = nan_less error_ratio1 (Some 1);
          converged_and_rejected = (newton_converged \<and> \<not> accepted1);
          new_step_size2 =
            where_nan converged_and_rejected
              (next_step_size_nan step_size1 order0 error_ratio1 (safety_factor self)
                 (min_step_size_factor self) (max_step_size_factor self))
              new_step_size1;
          should_update_step_size2 = (should_update_step_size1 \<or> converged_and_rejected);
          time1 = np_where accepted1 (time iterand + step_size1) (time iterand);
          backward_differences2 =
            np_where accepted1
              (update_backward_differences U backward_differences1 next_backward_difference
                 next_state_vec order0)
              backward_differences1;
          jacobian_is_up_to_date1 = (jacobian_is_up_to_date iterand \<and> \<not> accepted1);
          num_steps_same_size2 =
            np_where accepted1 (num_steps_same_size1 + 1) num_steps_same_size1
      in \<lparr>at_status = status1,
          at_backward_differences = backward_differences2,
          at_step_size = step_size1,
          at_num_steps_same_size = num_steps_same_size2,
          at_unitary = unitary1,
          at_upper = upper1,
          at_num_matrix_factorizations = num_matrix_factorizations1,
          at_tol = tol,
          at_newton_converged = newton_converged,
          at_num_steps = num_steps1,
          at_num_ode_fn_evaluations = num_ode_fn_evaluations1,
          at_new_step_size = new_step_size2,
          at_should_update_step_size = should_update_step_size2,
          at_should_update_jacobian = should_update_jacobian1,
          at_error_ratio = error_ratio1,
          at_accepted = accepted1,
          at_time = time1,
          at_jacobian_is_up_to_date = jacobian_is_up_to_date1\<rparr>)"

text \<open>The body of the loop \<^verbatim>\<open>for offset in [-1, +1]\<close>, lines 240-250, on the pair
  \<open>(new_order, new_error_ratio)\<close>. \<open>order0\<close> is the order of the attempt. The two
  assignments of lines 240-243 are functions of their own.\<close>

definition proposed_order :: "BDF \<Rightarrow> int \<Rightarrow> int \<Rightarrow> int" where
  "proposed_order self order0 offset = np_clip (order0 + offset) 1 (max_order self)"

definition proposed_error_ratio :: "bdf_util \<Rightarrow> BDF \<Rightarrow> mat \<Rightarrow> vec \<Rightarrow> int \<Rightarrow> real option" where
  "proposed_error_ratio U self backward_differences0 tol proposed_order0 =
     Some (error_ratio U (jax_index backward_differences0 (proposed_order0 + 1))
             (jax_index (error_coefficients self) proposed_order0) tol)"

definition scan_offset ::
  "bdf_util \<Rightarrow> BDF \<Rightarrow> bool \<Rightarrow> int \<Rightarrow> mat \<Rightarrow> vec \<Rightarrow> int \<times> real option \<Rightarrow> int
     \<Rightarrow> int \<times> real option" where
  "scan_offset U self should_update_order_and_step_size0 order0 backward_differences0 tol =
     (\<lambda>(new_order, new_error_ratio) offset.
        let proposed_order0 = proposed_order self order0 offset;
            proposed_error_ratio0 =
              proposed_error_ratio U self backward_differences0 tol proposed_order0;
            proposed_error_ratio_is_lower = nan_less proposed_error_ratio0 new_error_ratio
        in (np_where (should_update_order_and_step_size0 \<and> proposed_error_ratio_is_lower)
              proposed_order0 new_order,
            np_where (should_update_order_and_step_size0 \<and> proposed_error_ratio_is_lower)
              proposed_error_ratio0 new_error_ratio))"

text \<open>Lines 235-252: the condition of the adaptation and the scan.\<close>

definition should_update_order_and_step_size :: "BDFSolverInternalState \<Rightarrow> attempt \<Rightarrow> bool" where
  "should_update_order_and_step_size solver_internal_state0 a =
     (at_accepted a \<and> at_num_steps_same_size a > order solver_internal_state0 + 1)"

definition order_scan ::
  "bdf_util \<Rightarrow> BDF \<Rightarrow> BDFSolverInternalState \<Rightarrow> attempt \<Rightarrow> int \<times> real option" where
  "order_scan U self solver_internal_state0 a =
     foldl (scan_offset U self (should_update_order_and_step_size solver_internal_state0 a)
              (order solver_internal_state0) (at_backward_differences a) (at_tol a))
       (order solver_internal_state0, at_error_ratio a) [- 1, 1]"

text \<open>\<^verbatim>\<open>maybe_step\<close>, lines 136-278.\<close>

definition maybe_step :: "bdf_util \<Rightarrow> BDF \<Rightarrow> maybe_step_state \<Rightarrow> maybe_step_state" where
  "maybe_step U self =
     (\<lambda>(accepted0, diagnostics0, iterand, solver_internal_state0).
        let a = maybe_step_attempt U self diagnostics0 iterand solver_internal_state0;
            (order1, error_ratio2) = order_scan U self solver_internal_state0 a;
            new_step_size3 =
              where_nan (should_update_order_and_step_size solver_internal_state0 a)
                (next_step_size_nan (at_step_size a) order1 error_ratio2 (safety_factor self)
                   (min_step_size_factor self) (max_step_size_factor self))
                (at_new_step_size a);
            should_update_step_size3 =
              (at_should_update_step_size a
                 \<or> should_update_order_and_step_size solver_internal_state0 a)
        in (at_accepted a,
            \<lparr>num_jacobian_evaluations = num_jacobian_evaluations diagnostics0,
             num_matrix_factorizations = at_num_matrix_factorizations a,
             num_ode_fn_evaluations = at_num_ode_fn_evaluations a,
             status = at_status a\<rparr>,
            \<lparr>jacobian_mat = jacobian_mat iterand,
             jacobian_is_up_to_date = at_jacobian_is_up_to_date a,
             new_step_size = new_step_size3,
             num_steps = at_num_steps a,
             num_steps_same_size = at_num_steps_same_size a,
             should_update_jacobian = at_should_update_jacobian a,
             should_update_step_size = should_update_step_size3,
             time = at_time a,
             unitary = at_unitary a,
             upper = at_upper a\<rparr>,
            \<lparr>backward_differences = at_backward_differences a,
             order = order1,
             step_size = at_step_size a\<rparr>))"

subsection \<open>step\<close>

text \<open>Lines 124-132: the loop that repeats \<^verbatim>\<open>maybe_step\<close>.\<close>

definition maybe_step_cond :: "maybe_step_state \<Rightarrow> bool" where
  "maybe_step_cond = (\<lambda>(accepted0, diagnostics0, iterand, solver_internal_state0).
     \<not> accepted0 \<and> status diagnostics0 = 0)"

partial_function (option) maybe_step_loop ::
  "bdf_util \<Rightarrow> BDF \<Rightarrow> maybe_step_state \<Rightarrow> maybe_step_state option" where
  "maybe_step_loop U self st =
     (if maybe_step_cond st then maybe_step_loop U self (maybe_step U self st) else Some st)"

type_synonym step_state =
  "real \<times> BDFDiagnostics \<times> BDFIterand \<times> BDFSolverInternalState \<times> mat \<times> vec"

text \<open>\<^verbatim>\<open>step\<close>, lines 85-134.\<close>

definition step ::
  "bdf_util \<Rightarrow> BDF \<Rightarrow> (real \<Rightarrow> vec \<Rightarrow> mat) \<Rightarrow> step_state \<Rightarrow> step_state option" where
  "step U self jacobian_fn =
     (\<lambda>(next_time, diagnostics0, iterand, solver_internal_state0, state_vec, times0).
        let iterand1 = step_clamp next_time iterand;
            (diagnostics1, iterand2) =
              step_jacobian self jacobian_fn diagnostics0 iterand1 solver_internal_state0
        in case maybe_step_loop U self (False, diagnostics1, iterand2, solver_internal_state0) of
             None \<Rightarrow> None
           | Some (accepted0, diagnostics2, iterand3, solver_internal_state1) \<Rightarrow>
               Some (next_time, diagnostics2, iterand3, solver_internal_state1, state_vec,
                     times0))"

text \<open>The state with which \<^verbatim>\<open>step\<close> enters that loop (line 129): the iterand after
  lines 88-117, and \<open>accepted = False\<close>.\<close>

definition step_entry ::
  "BDF \<Rightarrow> (real \<Rightarrow> vec \<Rightarrow> mat) \<Rightarrow> real \<Rightarrow> BDFDiagnostics \<Rightarrow> BDFIterand
     \<Rightarrow> BDFSolverInternalState \<Rightarrow> maybe_step_state" where
  "step_entry self jacobian_fn next_time diagnostics0 iterand solver_internal_state0 =
     (let iterand1 = step_clamp next_time iterand;
          (diagnostics1, iterand2) =
            step_jacobian self jacobian_fn diagnostics0 iterand1 solver_internal_state0
      in (False, diagnostics1, iterand2, solver_internal_state0))"

subsection \<open>advance\_to\_solution\_time and \_solve\<close>

definition step_cond :: "step_state \<Rightarrow> bool" where
  "step_cond = (\<lambda>(next_time, diagnostics0, iterand, rest).
     time iterand < next_time \<and> status diagnostics0 = 0)"

partial_function (option) step_loop ::
  "bdf_util \<Rightarrow> BDF \<Rightarrow> (real \<Rightarrow> vec \<Rightarrow> mat) \<Rightarrow> step_state \<Rightarrow> step_state option" where
  "step_loop U self jacobian_fn st =
     (if step_cond st
      then Option.bind (step U self jacobian_fn st) (step_loop U self jacobian_fn)
      else Some st)"

type_synonym advance_state =
  "int \<times> BDFDiagnostics \<times> BDFIterand \<times> BDFSolverInternalState \<times> mat \<times> vec"

text \<open>\<^verbatim>\<open>advance_to_solution_time\<close>, lines 58-83. The two writes are not guarded by
  \<open>status\<close>.\<close>

definition advance_to_solution_time ::
  "bdf_util \<Rightarrow> BDF \<Rightarrow> (real \<Rightarrow> vec \<Rightarrow> mat) \<Rightarrow> vec \<Rightarrow> advance_state \<Rightarrow> advance_state option"
  where
  "advance_to_solution_time U self jacobian_fn solution_times =
     (\<lambda>(n, diagnostics0, iterand, solver_internal_state0, state_vec, times0).
        let nth_solution_time = jax_index solution_times n
        in case step_loop U self jacobian_fn
                  (nth_solution_time, diagnostics0, iterand, solver_internal_state0, state_vec,
                   times0) of
             None \<Rightarrow> None
           | Some (next_time, diagnostics1, iterand1, solver_internal_state1, state_vec1,
                   times1) \<Rightarrow>
               Some (n + 1, diagnostics1, iterand1, solver_internal_state1,
                     index_update state_vec1 n
                       (jax_index (backward_differences solver_internal_state1) 0),
                     index_update times1 n nth_solution_time))"

definition advance_to_solution_time_cond :: "int \<Rightarrow> advance_state \<Rightarrow> bool" where
  "advance_to_solution_time_cond num_solution_times =
     (\<lambda>(n, diagnostics0, rest). n < num_solution_times \<and> status diagnostics0 = 0)"

partial_function (option) advance_loop ::
  "bdf_util \<Rightarrow> BDF \<Rightarrow> (real \<Rightarrow> vec \<Rightarrow> mat) \<Rightarrow> vec \<Rightarrow> advance_state \<Rightarrow> advance_state option"
  where
  "advance_loop U self jacobian_fn solution_times st =
     (if advance_to_solution_time_cond (int (length solution_times)) st
      then Option.bind (advance_to_solution_time U self jacobian_fn solution_times st)
             (advance_loop U self jacobian_fn solution_times)
      else Some st)"

text \<open>The state of that loop after its first \<open>k\<close> passes, each pass being
  \<^verbatim>\<open>advance_to_solution_time\<close>; the condition of the loop is not looked at.\<close>

fun advance_steps ::
  "bdf_util \<Rightarrow> BDF \<Rightarrow> (real \<Rightarrow> vec \<Rightarrow> mat) \<Rightarrow> vec \<Rightarrow> nat \<Rightarrow> advance_state \<Rightarrow> advance_state option"
  where
  "advance_steps U self jacobian_fn solution_times 0 st = Some st"
| "advance_steps U self jacobian_fn solution_times (Suc k) st =
     Option.bind (advance_steps U self jacobian_fn solution_times k st)
       (advance_to_solution_time U self jacobian_fn solution_times)"

text \<open>\<^verbatim>\<open>_get_common_params_and_coefficients\<close> and
  \<^verbatim>\<open>_initialize_solver_internal_state\<close>, lines 337-401: the solver object with
  \<^verbatim>\<open>self.p\<close> and \<^verbatim>\<open>self.e\<close> set, and the first internal state.\<close>

definition initialize_solver_internal_state ::
  "bdf_util \<Rightarrow> BDF \<Rightarrow> (real \<Rightarrow> vec \<Rightarrow> vec) \<Rightarrow> real \<Rightarrow> vec \<Rightarrow> BDF \<times> BDFSolverInternalState"
  where
  "initialize_solver_internal_state U self ode_fn initial_time initial_state =
     (let initial_state_vec = initial_state;
          ode_fn_vec0 = get_ode_fn_vec U ode_fn initial_time initial_state;
          num_odes = length initial_state_vec;
          (newton_coefficients0, error_coefficients0) =
            get_coefficients U (bdf_coefficients self);
          self1 = self\<lparr>ode_fn_vec := ode_fn_vec0,
                      newton_coefficients := newton_coefficients0,
                      error_coefficients := error_coefficients0\<rparr>;
          first_step_size0 =
            first_step_size U (atol self) (jax_index error_coefficients0 1) initial_state_vec
              initial_time ode_fn_vec0 (rtol self) (safety_factor self);
          first_order_backward_difference =
            map (\<lambda>y. y * first_step_size0) (ode_fn_vec0 initial_time initial_state_vec);
          backward_differences0 =
            [initial_state_vec] @ [first_order_backward_difference]
              @ replicate (nat (MAX_ORDER U + 1)) (replicate num_odes 0)
      in (self1,
          \<lparr>backward_differences = backward_differences0, order = 1,
           step_size = first_step_size0\<rparr>))"

text \<open>The diagnostics, the iterand and the output arrays that \<^verbatim>\<open>_solve\<close> starts from,
  lines 286-308.\<close>

definition initial_advance_state ::
  "BDFSolverInternalState \<Rightarrow> real \<Rightarrow> nat \<Rightarrow> nat \<Rightarrow> advance_state" where
  "initial_advance_state solver_internal_state0 initial_time num_odes num_solution_times =
     (0,
      \<lparr>num_jacobian_evaluations = 0, num_matrix_factorizations = 0,
       num_ode_fn_evaluations = 0, status = 0\<rparr>,
      \<lparr>jacobian_mat = replicate num_odes (replicate num_odes 0),
       jacobian_is_up_to_date = False,
       new_step_size = step_size solver_internal_state0,
       num_steps = 0,
       num_steps_same_size = 0,
       should_update_jacobian = True,
       should_update_step_size = False,
       time = initial_time,
       unitary = replicate num_odes (replicate num_odes 0),
       upper = replicate num_odes (replicate num_odes 0)\<rparr>,
      solver_internal_state0,
      replicate num_solution_times (replicate num_odes 0),
      replicate num_solution_times 0)"

text \<open>\<^verbatim>\<open>_solve\<close>, lines 51-325.\<close>

definition solve ::
  "bdf_util \<Rightarrow> BDF \<Rightarrow> (real \<Rightarrow> vec \<Rightarrow> vec) \<Rightarrow> real \<Rightarrow> vec \<Rightarrow> vec \<Rightarrow> (real \<Rightarrow> vec \<Rightarrow> mat)
     \<Rightarrow> Results option" where
  "solve U self ode_fn initial_time initial_state solution_times jacobian_fn =
     (let (self1, solver_internal_state0) =
            initialize_solver_internal_state U self ode_fn initial_time initial_state
      in case advance_loop U self1 jacobian_fn solution_times
                (initial_advance_state solver_internal_state0 initial_time
                   (length initial_state) (length solution_times)) of
           None \<Rightarrow> None
         | Some (n, diagnostics0, iterand, solver_internal_state1, state_vec, times0) \<Rightarrow>
             Some \<lparr>times = times0, states = state_vec, diagnostics = diagnostics0,
                   solver_internal_state = solver_internal_state1\<rparr>)"

text \<open>The state of \<^verbatim>\<open>_solve\<close> after the first \<open>k\<close> passes of its loop.\<close>

definition solve_passes ::
  "bdf_util \<Rightarrow> BDF \<Rightarrow> (real \<Rightarrow> vec \<Rightarrow> vec) \<Rightarrow> real \<Rightarrow> vec \<Rightarrow> vec \<Rightarrow> (real \<Rightarrow> vec \<Rightarrow> mat)
     \<Rightarrow> nat \<Rightarrow> advance_state option" where
  "solve_passes U self ode_fn initial_time initial_state solution_times jacobian_fn k =
     (let (self1, solver_internal_state0) =
            initialize_solver_internal_state U self ode_fn initial_time initial_state
      in advance_steps U self1 jacobian_fn solution_times k
           (initial_advance_state solver_internal_state0 initial_time
              (length initial_state) (length solution_times)))"

subsection \<open>The budget of steps\<close>

text \<open>The counter of attempts against a budget of \<open>m\<close> steps: at most \<open>m\<close> while the
  status is 0, and \<open>m + 1\<close> once it is not.\<close>

definition within_budget :: "int \<Rightarrow> BDFDiagnostics \<Rightarrow> BDFIterand \<Rightarrow> bool" where
  "within_budget m diagnostics0 iterand =
     (num_steps iterand \<le> (if status diagnostics0 = 0 then m else m + 1))"

text \<open>The status code against the counter of attempts: 0 while at most \<open>m\<close> attempts
  were made, and \<open>-1\<close> with \<open>m + 1\<close> attempts made once one of them has found the budget
  used up.\<close>

definition budget_state :: "int \<Rightarrow> BDFDiagnostics \<Rightarrow> BDFIterand \<Rightarrow> bool" where
  "budget_state m diagnostics0 iterand =
     (status diagnostics0 = 0 \<and> num_steps iterand \<le> m
      \<or> status diagnostics0 = - 1 \<and> num_steps iterand = m + 1)"

subsection \<open>Step sizes\<close>

text \<open>The two step sizes the solver carries, the one in use and the pending one, are
  positive.\<close>

definition positive_step_sizes :: "BDFIterand \<Rightarrow> BDFSolverInternalState \<Rightarrow> bool" where
  "positive_step_sizes iterand solver_internal_state0 =
     (0 < step_size solver_internal_state0 \<and> 0 < new_step_size iterand)"

text \<open>What the positivity of the step sizes needs of the solver object.\<close>

definition positive_factors :: "BDF \<Rightarrow> bool" where
  "positive_factors self =
     (0 < min_step_size_factor self \<and> min_step_size_factor self \<le> max_step_size_factor self
      \<and> 0 < newton_step_size_factor self)"

subsection \<open>Concrete inputs\<close>

text \<open>An instance of \<open>bdf_util\<close> on which the solver can be run: the two transforms of
  the history return it unchanged, the factorization returns the Jacobian twice, Newton's
  iteration ends after one iteration with the outcome \<open>conv\<close>, and the error ratio of a
  row is the absolute value of the error coefficient passed with it, so that the list
  \<open>error_coefficients\<close> of the solver object fixes the error ratio of every order. The
  first step size is 1.\<close>

definition stub_util :: "bool \<Rightarrow> bdf_util" where
  "stub_util conv =
     \<lparr>MAX_ORDER = 5, ORDERS = [0, 1, 2, 3, 4, 5],
      RECIPROCAL_SUMS = [1, 1, 3 / 2, 11 / 6, 25 / 12, 137 / 60],
      interpolate_backward_differences = (\<lambda>bd k r. bd),
      update_backward_differences = (\<lambda>bd nbd nsv k. bd),
      newton_qr = (\<lambda>j c h. (j, j)),
      newton = (\<lambda>bd n c f k h t tol q r. (conv, [0], jax_index bd 0, 1)),
      error_ratio = (\<lambda>v c tol. \<bar>c\<bar>),
      get_ode_fn_vec = (\<lambda>f t y. f),
      first_step_size = (\<lambda>a ec y t f r sf. 1)\<rparr>"

definition stub_solver :: "int option \<Rightarrow> vec \<Rightarrow> BDF" where
  "stub_solver budget ecs =
     \<lparr>rtol = 1 / 1000, atol = 1 / 1000000, safety_factor = 9 / 10,
      min_step_size_factor = 1 / 10, max_step_size_factor = 10,
      max_num_steps = budget, max_order = 5, max_num_newton_iters = 4,
      newton_tol_factor = 1 / 10, newton_step_size_factor = 1 / 2,
      bdf_coefficients = [0, 37 / 200, - 1 / 9, - 823 / 10000, - 83 / 2000, 0],
      evaluate_jacobian_lazily = False,
      ode_fn_vec = (\<lambda>t y. [0]),
      newton_coefficients = [1, 1, 1, 1, 1, 1],
      error_coefficients = ecs\<rparr>"

definition d0 :: BDFDiagnostics where
  "d0 = \<lparr>num_jacobian_evaluations = 0, num_matrix_factorizations = 0,
       num_ode_fn_evaluations = 0, status = 0\<rparr>"

definition it0 :: BDFIterand where
 "it0 = \<lparr>jacobian_mat = [[0]],
       jacobian_is_up_to_date = False,
       new_step_size = 1,
       num_steps = 0,
       num_steps_same_size = 0,
       should_update_jacobian = True,
       should_update_step_size = False,
       time = 0,
       unitary = [[0]],
       upper = [[0]]\<rparr>"

definition s0 :: BDFSolverInternalState where
  "s0 = \<lparr>backward_differences = [[1],[0],[0],[0],[0],[0],[0],[0]], order = 1, step_size = 1\<rparr>"

section \<open>Properties\<close>

subsection \<open>The local variables of an attempt\<close>

lemma at_status_eq:
  "at_status (maybe_step_attempt U self d it s) =
     (if Some (num_steps it) = max_num_steps self then - 1 else 0)"
  by (simp add: maybe_step_attempt_def np_where_def Let_def split_def)

lemma at_step_size_eq:
  "at_step_size (maybe_step_attempt U self d it s) =
     (if should_update_step_size it then new_step_size it else step_size s)"
  by (simp add: maybe_step_attempt_def np_where_def Let_def split_def)

lemma at_num_steps_eq: "at_num_steps (maybe_step_attempt U self d it s) = num_steps it + 1"
  by (simp add: maybe_step_attempt_def Let_def split_def)

lemma at_num_matrix_factorizations_eq:
  "at_num_matrix_factorizations (maybe_step_attempt U self d it s) =
     num_matrix_factorizations d + 1"
  by (simp add: maybe_step_attempt_def Let_def split_def)

lemma at_accepted_eq:
  "at_accepted (maybe_step_attempt U self d it s) =
     nan_less (at_error_ratio (maybe_step_attempt U self d it s)) (Some 1)"
  by (simp add: maybe_step_attempt_def Let_def split_def)

lemma at_error_ratio_nan:
  "\<not> at_newton_converged (maybe_step_attempt U self d it s) \<Longrightarrow>
     at_error_ratio (maybe_step_attempt U self d it s) = None"
  by (simp add: maybe_step_attempt_def np_where_def Let_def split_def)

lemma at_should_update_jacobian_eq:
  "at_should_update_jacobian (maybe_step_attempt U self d it s) =
     (\<not> at_newton_converged (maybe_step_attempt U self d it s) \<and> \<not> jacobian_is_up_to_date it)"
  by (simp add: maybe_step_attempt_def Let_def split_def)

lemma at_should_update_step_size_eq:
  "at_should_update_step_size (maybe_step_attempt U self d it s) =
     ((\<not> at_newton_converged (maybe_step_attempt U self d it s) \<and> jacobian_is_up_to_date it)
      \<or> (at_newton_converged (maybe_step_attempt U self d it s)
           \<and> \<not> at_accepted (maybe_step_attempt U self d it s)))"
  by (simp add: maybe_step_attempt_def Let_def split_def)

lemma at_new_step_size_eq:
  "at_new_step_size (maybe_step_attempt U self d it s) =
     where_nan
       (at_newton_converged (maybe_step_attempt U self d it s)
          \<and> \<not> at_accepted (maybe_step_attempt U self d it s))
       (next_step_size_nan (at_step_size (maybe_step_attempt U self d it s)) (order s)
          (at_error_ratio (maybe_step_attempt U self d it s)) (safety_factor self)
          (min_step_size_factor self) (max_step_size_factor self))
       (at_step_size (maybe_step_attempt U self d it s) *
          (if \<not> at_newton_converged (maybe_step_attempt U self d it s)
                \<and> jacobian_is_up_to_date it
           then newton_step_size_factor self else 1))"
  by (simp add: maybe_step_attempt_def np_where_def Let_def split_def)

lemma at_time_eq:
  "at_time (maybe_step_attempt U self d it s) =
     (if at_accepted (maybe_step_attempt U self d it s)
      then time it + at_step_size (maybe_step_attempt U self d it s) else time it)"
  by (simp add: maybe_step_attempt_def np_where_def Let_def split_def)

lemma at_jacobian_is_up_to_date_eq:
  "at_jacobian_is_up_to_date (maybe_step_attempt U self d it s) =
     (jacobian_is_up_to_date it \<and> \<not> at_accepted (maybe_step_attempt U self d it s))"
  by (simp add: maybe_step_attempt_def Let_def split_def)

lemma at_num_steps_same_size_eq:
  "at_num_steps_same_size (maybe_step_attempt U self d it s) =
     (if should_update_step_size it then 0 else num_steps_same_size it)
       + (if at_accepted (maybe_step_attempt U self d it s) then 1 else 0)"
  by (simp add: maybe_step_attempt_def np_where_def Let_def split_def)

text \<open>The two selections of a new step size never pick a NaN: an error ratio is NaN
  only when Newton's iteration did not converge, and then neither condition holds.\<close>

lemma rejected_ratio_not_nan:
  "at_newton_converged (maybe_step_attempt U self d it s) \<Longrightarrow>
     at_error_ratio (maybe_step_attempt U self d it s) \<noteq> None"
  by (simp add: maybe_step_attempt_def np_where_def Let_def split_def)

lemma attempt_budget_only_status:
  "maybe_step_attempt U (self\<lparr>max_num_steps := m\<rparr>) d it s =
     (maybe_step_attempt U self d it s)
       \<lparr>at_status := (if Some (num_steps it) = m then - 1 else 0)\<rparr>"
  by (simp add: maybe_step_attempt_def np_where_def Let_def split_def)

lemma order_scan_eq:
  "order_scan U self s a =
     (let e0 = at_error_ratio a;
          lo = proposed_order self (order s) (- 1);
          hi = proposed_order self (order s) 1;
          e_lo = proposed_error_ratio U self (at_backward_differences a) (at_tol a) lo;
          e_hi = proposed_error_ratio U self (at_backward_differences a) (at_tol a) hi
      in if should_update_order_and_step_size s a
         then (if nan_less e_lo e0
               then (if nan_less e_hi e_lo then (hi, e_hi) else (lo, e_lo))
               else (if nan_less e_hi e0 then (hi, e_hi) else (order s, e0)))
         else (order s, e0))"
  by (simp add: order_scan_def scan_offset_def np_where_def Let_def)

lemma adapting_ratio_not_nan:
  "should_update_order_and_step_size s (maybe_step_attempt U self d it s) \<Longrightarrow>
     snd (order_scan U self s (maybe_step_attempt U self d it s)) \<noteq> None"
proof -
  assume "should_update_order_and_step_size s (maybe_step_attempt U self d it s)"
  then have "at_accepted (maybe_step_attempt U self d it s)"
    by (simp add: should_update_order_and_step_size_def)
  then have "at_error_ratio (maybe_step_attempt U self d it s) \<noteq> None"
    by (cases "at_error_ratio (maybe_step_attempt U self d it s)")
       (simp_all add: at_accepted_eq)
  then show ?thesis
    by (simp add: order_scan_eq Let_def proposed_error_ratio_def)
qed

lemma maybe_step_accepted:
  "ms_accepted (maybe_step U self (acc, d, it, s)) = at_accepted (maybe_step_attempt U self d it s)"
  by (simp add: maybe_step_def ms_accepted_def Let_def split_def)

lemma maybe_step_diagnostics:
  "ms_diagnostics (maybe_step U self (acc, d, it, s)) =
     (let a = maybe_step_attempt U self d it s
      in \<lparr>num_jacobian_evaluations = num_jacobian_evaluations d,
          num_matrix_factorizations = at_num_matrix_factorizations a,
          num_ode_fn_evaluations = at_num_ode_fn_evaluations a,
          status = at_status a\<rparr>)"
  by (simp add: maybe_step_def ms_diagnostics_def Let_def split_def)

lemma maybe_step_state:
  "ms_state (maybe_step U self (acc, d, it, s)) =
     (let a = maybe_step_attempt U self d it s
      in \<lparr>backward_differences = at_backward_differences a,
          order = fst (order_scan U self s a),
          step_size = at_step_size a\<rparr>)"
  by (simp add: maybe_step_def ms_state_def Let_def split_def)

lemma maybe_step_iterand:
  "ms_iterand (maybe_step U self (acc, d, it, s)) =
     (let a = maybe_step_attempt U self d it s
      in \<lparr>jacobian_mat = jacobian_mat it,
          jacobian_is_up_to_date = at_jacobian_is_up_to_date a,
          new_step_size =
            where_nan (should_update_order_and_step_size s a)
              (next_step_size_nan (at_step_size a) (fst (order_scan U self s a))
                 (snd (order_scan U self s a)) (safety_factor self)
                 (min_step_size_factor self) (max_step_size_factor self))
              (at_new_step_size a),
          num_steps = at_num_steps a,
          num_steps_same_size = at_num_steps_same_size a,
          should_update_jacobian = at_should_update_jacobian a,
          should_update_step_size =
            (at_should_update_step_size a \<or> should_update_order_and_step_size s a),
          time = at_time a,
          unitary = at_unitary a,
          upper = at_upper a\<rparr>)"
  by (simp add: maybe_step_def ms_iterand_def Let_def split_def)

lemma maybe_step_tuple:
  "maybe_step U self st =
     (ms_accepted (maybe_step U self st), ms_diagnostics (maybe_step U self st),
      ms_iterand (maybe_step U self st), ms_state (maybe_step U self st))"
  by (simp add: ms_accepted_def ms_diagnostics_def ms_iterand_def ms_state_def split_def)

text \<open>The fields of the result of \<^verbatim>\<open>maybe_step\<close>, one by one.\<close>

lemma where_nan_False [simp]: "where_nan False x y = y"
  by (cases x) simp_all

lemma maybe_step_fields:
  "status (ms_diagnostics (maybe_step U self (acc, d, it, s)))
     = at_status (maybe_step_attempt U self d it s)"
  "num_jacobian_evaluations (ms_diagnostics (maybe_step U self (acc, d, it, s)))
     = num_jacobian_evaluations d"
  "num_matrix_factorizations (ms_diagnostics (maybe_step U self (acc, d, it, s)))
     = num_matrix_factorizations d + 1"
  "num_ode_fn_evaluations (ms_diagnostics (maybe_step U self (acc, d, it, s)))
     = at_num_ode_fn_evaluations (maybe_step_attempt U self d it s)"
  "jacobian_mat (ms_iterand (maybe_step U self (acc, d, it, s))) = jacobian_mat it"
  "jacobian_is_up_to_date (ms_iterand (maybe_step U self (acc, d, it, s)))
     = at_jacobian_is_up_to_date (maybe_step_attempt U self d it s)"
  "num_steps (ms_iterand (maybe_step U self (acc, d, it, s))) = num_steps it + 1"
  "num_steps_same_size (ms_iterand (maybe_step U self (acc, d, it, s)))
     = at_num_steps_same_size (maybe_step_attempt U self d it s)"
  "should_update_jacobian (ms_iterand (maybe_step U self (acc, d, it, s)))
     = at_should_update_jacobian (maybe_step_attempt U self d it s)"
  "should_update_step_size (ms_iterand (maybe_step U self (acc, d, it, s)))
     = (at_should_update_step_size (maybe_step_attempt U self d it s)
        \<or> should_update_order_and_step_size s (maybe_step_attempt U self d it s))"
  "time (ms_iterand (maybe_step U self (acc, d, it, s)))
     = at_time (maybe_step_attempt U self d it s)"
  "new_step_size (ms_iterand (maybe_step U self (acc, d, it, s)))
     = where_nan (should_update_order_and_step_size s (maybe_step_attempt U self d it s))
         (next_step_size_nan (at_step_size (maybe_step_attempt U self d it s))
            (fst (order_scan U self s (maybe_step_attempt U self d it s)))
            (snd (order_scan U self s (maybe_step_attempt U self d it s)))
            (safety_factor self) (min_step_size_factor self) (max_step_size_factor self))
         (at_new_step_size (maybe_step_attempt U self d it s))"
  "backward_differences (ms_state (maybe_step U self (acc, d, it, s)))
     = at_backward_differences (maybe_step_attempt U self d it s)"
  "order (ms_state (maybe_step U self (acc, d, it, s)))
     = fst (order_scan U self s (maybe_step_attempt U self d it s))"
  "step_size (ms_state (maybe_step U self (acc, d, it, s)))
     = at_step_size (maybe_step_attempt U self d it s)"
  by (simp_all add: maybe_step_diagnostics maybe_step_iterand maybe_step_state Let_def
      at_num_steps_eq at_num_matrix_factorizations_eq)

text \<open>The concrete instance \<open>stub_util\<close>.\<close>

lemma stub_newton_converged:
  "at_newton_converged (maybe_step_attempt (stub_util c) self d it s) = c"
  by (simp add: maybe_step_attempt_def Let_def split_def stub_util_def)

lemma stub_error_ratio:
  "at_error_ratio (maybe_step_attempt (stub_util c) self d it s) =
     (if c then Some \<bar>jax_index (error_coefficients self) (order s)\<bar> else None)"
  by (simp add: maybe_step_attempt_def Let_def split_def stub_util_def np_where_def)

lemma stub_backward_differences:
  "at_backward_differences (maybe_step_attempt (stub_util c) self d it s) =
     backward_differences s"
  by (simp add: maybe_step_attempt_def Let_def split_def stub_util_def np_where_def)

lemma stub_proposed_error_ratio:
  "proposed_error_ratio (stub_util c) self bd tol p = Some \<bar>jax_index (error_coefficients self) p\<bar>"
  by (simp add: proposed_error_ratio_def stub_util_def)

lemma stub_num_ode_fn_evaluations:
  "at_num_ode_fn_evaluations (maybe_step_attempt (stub_util c) self d it s) =
     num_ode_fn_evaluations d + 1"
  by (simp add: maybe_step_attempt_def Let_def split_def stub_util_def)

lemma stub_attempt:
  "maybe_step_attempt (stub_util c) self d it s =
     (let h = (if should_update_step_size it then new_step_size it else step_size s);
          e = (if c then Some \<bar>jax_index (error_coefficients self) (order s)\<bar> else None);
          acc = nan_less e (Some 1)
      in \<lparr>at_status = (if Some (num_steps it) = max_num_steps self then - 1 else 0),
          at_backward_differences = backward_differences s,
          at_step_size = h,
          at_num_steps_same_size =
            (if should_update_step_size it then 0 else num_steps_same_size it)
              + (if acc then 1 else 0),
          at_unitary = jacobian_mat it,
          at_upper = jacobian_mat it,
          at_num_matrix_factorizations = num_matrix_factorizations d + 1,
          at_tol = map (\<lambda>y. atol self + rtol self * \<bar>y\<bar>) (jax_index (backward_differences s) 0),
          at_newton_converged = c,
          at_num_steps = num_steps it + 1,
          at_num_ode_fn_evaluations = num_ode_fn_evaluations d + 1,
          at_new_step_size =
            where_nan (c \<and> \<not> acc)
              (next_step_size_nan h (order s) e (safety_factor self) (min_step_size_factor self)
                 (max_step_size_factor self))
              (h * (if \<not> c \<and> jacobian_is_up_to_date it then newton_step_size_factor self else 1)),
          at_should_update_step_size = ((\<not> c \<and> jacobian_is_up_to_date it) \<or> (c \<and> \<not> acc)),
          at_should_update_jacobian = (\<not> c \<and> \<not> jacobian_is_up_to_date it),
          at_error_ratio = e,
          at_accepted = acc,
          at_time = (if acc then time it + h else time it),
          at_jacobian_is_up_to_date = (jacobian_is_up_to_date it \<and> \<not> acc)\<rparr>)"
  by (simp add: maybe_step_attempt_def stub_util_def np_where_def Let_def)


lemma stub_accepted_step:
  assumes "\<bar>jax_index (error_coefficients self) (order s)\<bar> < 1"
    and "(if should_update_step_size it then 0 else num_steps_same_size it) \<le> order s"
  shows "maybe_step (stub_util True) self (acc, d, it, s) =
     (True,
      \<lparr>num_jacobian_evaluations = num_jacobian_evaluations d,
       num_matrix_factorizations = num_matrix_factorizations d + 1,
       num_ode_fn_evaluations = num_ode_fn_evaluations d + 1,
       status = (if Some (num_steps it) = max_num_steps self then - 1 else 0)\<rparr>,
      \<lparr>jacobian_mat = jacobian_mat it,
       jacobian_is_up_to_date = False,
       new_step_size = (if should_update_step_size it then new_step_size it else step_size s),
       num_steps = num_steps it + 1,
       num_steps_same_size =
         (if should_update_step_size it then 0 else num_steps_same_size it) + 1,
       should_update_jacobian = False,
       should_update_step_size = False,
       time = time it + (if should_update_step_size it then new_step_size it else step_size s),
       unitary = jacobian_mat it,
       upper = jacobian_mat it\<rparr>,
      \<lparr>backward_differences = backward_differences s,
       order = order s,
       step_size = (if should_update_step_size it then new_step_size it else step_size s)\<rparr>)"
proof -
  let ?a = "maybe_step_attempt (stub_util True) self d it s"
  have acc: "at_accepted ?a" using assms(1) by (simp add: stub_attempt Let_def)
  have no: "\<not> should_update_order_and_step_size s ?a"
    using assms by (simp add: should_update_order_and_step_size_def stub_attempt Let_def)
  show ?thesis
    unfolding maybe_step_def
    using assms(1) no
    by (simp add: order_scan_eq Let_def stub_attempt)
qed

subsection \<open>The new step size of an attempt\<close>

lemma next_step_size_bounds:
  assumes "0 < h" and "lo \<le> hi"
  shows "lo * h \<le> next_step_size h k r sf lo hi" and "next_step_size h k r sf lo hi \<le> hi * h"
  using assms by (simp_all add: next_step_size_def np_clip_def mult.commute)

lemma next_step_size_positive:
  assumes "0 < h" and "0 < lo" and "lo \<le> hi"
  shows "0 < next_step_size h k r sf lo hi"
proof -
  have "0 < lo * h" using assms by simp
  also have "\<dots> \<le> next_step_size h k r sf lo hi" using assms by (simp add: next_step_size_bounds)
  finally show ?thesis .
qed

lemma maybe_step_new_step_size_cases:
  fixes U self d it s acc
  defines "a \<equiv> maybe_step_attempt U self d it s"
  defines "r \<equiv> maybe_step U self (acc, d, it, s)"
  defines "h \<equiv> step_size (ms_state r)"
  shows "h = (if should_update_step_size it then new_step_size it else step_size s)"
    and "\<not> should_update_step_size (ms_iterand r) \<Longrightarrow> new_step_size (ms_iterand r) = h"
    and "should_update_step_size (ms_iterand r) \<Longrightarrow> \<not> at_newton_converged a \<Longrightarrow>
           new_step_size (ms_iterand r) = h * newton_step_size_factor self"
    and "should_update_step_size (ms_iterand r) \<Longrightarrow> at_newton_converged a \<Longrightarrow>
           \<exists>k e. new_step_size (ms_iterand r)
             = next_step_size h k e (safety_factor self) (min_step_size_factor self)
                 (max_step_size_factor self)"
proof -
  show h: "h = (if should_update_step_size it then new_step_size it else step_size s)"
    by (simp add: h_def r_def maybe_step_fields at_step_size_eq)
  have hs: "at_step_size a = h" by (simp add: h_def r_def a_def maybe_step_fields)
  show "new_step_size (ms_iterand r) = h" if "\<not> should_update_step_size (ms_iterand r)"
  proof -
    from that have 1: "\<not> should_update_order_and_step_size s a"
      and 2: "\<not> at_should_update_step_size a"
      by (simp_all add: r_def a_def maybe_step_fields)
    from 2 have "\<not> (\<not> at_newton_converged a \<and> jacobian_is_up_to_date it)"
      and "\<not> (at_newton_converged a \<and> \<not> at_accepted a)"
      by (simp_all add: a_def at_should_update_step_size_eq)
    then have "at_new_step_size a = h"
      using hs by (auto simp: a_def at_new_step_size_eq)
    with 1 show ?thesis by (simp add: r_def maybe_step_fields a_def [symmetric])
  qed
  show "new_step_size (ms_iterand r) = h * newton_step_size_factor self"
    if "should_update_step_size (ms_iterand r)" and nc: "\<not> at_newton_converged a"
  proof -
    from nc have "at_error_ratio a = None" unfolding a_def by (rule at_error_ratio_nan)
    then have rej: "\<not> at_accepted a" by (simp add: a_def at_accepted_eq)
    then have 1: "\<not> should_update_order_and_step_size s a"
      by (simp add: should_update_order_and_step_size_def)
    with that(1) have "at_should_update_step_size a"
      by (simp add: r_def a_def maybe_step_fields)
    with nc have "jacobian_is_up_to_date it" by (simp add: a_def at_should_update_step_size_eq)
    with nc have "at_new_step_size a = h * newton_step_size_factor self"
      using hs by (simp add: a_def at_new_step_size_eq)
    with 1 show ?thesis by (simp add: r_def maybe_step_fields a_def [symmetric])
  qed
  show "\<exists>k e. new_step_size (ms_iterand r)
             = next_step_size h k e (safety_factor self) (min_step_size_factor self)
                 (max_step_size_factor self)"
    if "should_update_step_size (ms_iterand r)" and c: "at_newton_converged a"
  proof (cases "should_update_order_and_step_size s a")
    case True
    then have "snd (order_scan U self s a) \<noteq> None"
      unfolding a_def by (rule adapting_ratio_not_nan)
    then obtain e where "snd (order_scan U self s a) = Some e" by auto
    with True hs show ?thesis
      by (auto simp: r_def maybe_step_fields a_def [symmetric] next_step_size_nan_def)
  next
    case False
    with that(1) have "at_should_update_step_size a"
      by (simp add: r_def a_def maybe_step_fields)
    with c have rej: "\<not> at_accepted a" by (simp add: a_def at_should_update_step_size_eq)
    from c have "at_error_ratio a \<noteq> None" unfolding a_def by (rule rejected_ratio_not_nan)
    then obtain e where "at_error_ratio a = Some e" by auto
    with c rej hs have "at_new_step_size a
        = next_step_size h (order s) e (safety_factor self) (min_step_size_factor self)
            (max_step_size_factor self)"
      by (simp add: a_def at_new_step_size_eq next_step_size_nan_def)
    with False show ?thesis by (auto simp: r_def maybe_step_fields a_def [symmetric])
  qed
qed

subsection \<open>The three loops\<close>

text \<open>What holds before a loop and is kept by every pass of its body holds of the state
  it returns, and the condition of the loop is then false.\<close>

lemma maybe_step_loop_invariant:
  assumes "maybe_step_loop U self st = Some st'"
    and "Q st"
    and "\<And>x. Q x \<Longrightarrow> maybe_step_cond x \<Longrightarrow> Q (maybe_step U self x)"
  shows "Q st' \<and> \<not> maybe_step_cond st'"
proof -
  have "U = U \<longrightarrow> self = self \<longrightarrow> Q st \<longrightarrow> Q st' \<and> \<not> maybe_step_cond st'"
  proof (rule maybe_step_loop.raw_induct
      [where P = "\<lambda>V slf a b. V = U \<longrightarrow> slf = self \<longrightarrow> Q a \<longrightarrow> Q b \<and> \<not> maybe_step_cond b",
        OF _ assms(1)])
    fix loop V slf a b
    assume IH: "\<And>V slf a b. loop V slf a = Some b \<Longrightarrow>
                  V = U \<longrightarrow> slf = self \<longrightarrow> Q a \<longrightarrow> Q b \<and> \<not> maybe_step_cond b"
      and unf: "(if maybe_step_cond a then loop V slf (maybe_step V slf a) else Some a) = Some b"
    show "V = U \<longrightarrow> slf = self \<longrightarrow> Q a \<longrightarrow> Q b \<and> \<not> maybe_step_cond b"
    proof (intro impI)
      assume eq: "V = U" "slf = self" and q: "Q a"
      show "Q b \<and> \<not> maybe_step_cond b"
      proof (cases "maybe_step_cond a")
        case True
        with unf have "loop V slf (maybe_step V slf a) = Some b" by simp
        from IH [OF this] eq assms(3) [OF q True] show ?thesis by simp
      next
        case False
        with unf q show ?thesis by simp
      qed
    qed
  qed
  with assms(2) show ?thesis by simp
qed

lemma step_loop_invariant:
  assumes "step_loop U self jacobian_fn st = Some st'"
    and "Q st"
    and "\<And>x z. Q x \<Longrightarrow> step_cond x \<Longrightarrow> step U self jacobian_fn x = Some z \<Longrightarrow> Q z"
  shows "Q st' \<and> \<not> step_cond st'"
proof -
  have "U = U \<longrightarrow> self = self \<longrightarrow> jacobian_fn = jacobian_fn \<longrightarrow> Q st
          \<longrightarrow> Q st' \<and> \<not> step_cond st'"
  proof (rule step_loop.raw_induct
      [where P = "\<lambda>V slf jf a b. V = U \<longrightarrow> slf = self \<longrightarrow> jf = jacobian_fn \<longrightarrow> Q a
                    \<longrightarrow> Q b \<and> \<not> step_cond b",
        OF _ assms(1)])
    fix loop V slf jf a b
    assume IH: "\<And>V slf jf a b. loop V slf jf a = Some b \<Longrightarrow>
                  V = U \<longrightarrow> slf = self \<longrightarrow> jf = jacobian_fn \<longrightarrow> Q a \<longrightarrow> Q b \<and> \<not> step_cond b"
      and unf: "(if step_cond a then Option.bind (step V slf jf a) (loop V slf jf) else Some a)
                  = Some b"
    show "V = U \<longrightarrow> slf = self \<longrightarrow> jf = jacobian_fn \<longrightarrow> Q a \<longrightarrow> Q b \<and> \<not> step_cond b"
    proof (intro impI)
      assume eq: "V = U" "slf = self" "jf = jacobian_fn" and q: "Q a"
      show "Q b \<and> \<not> step_cond b"
      proof (cases "step_cond a")
        case True
        with unf obtain z where z: "step V slf jf a = Some z" "loop V slf jf z = Some b"
          by (auto simp: bind_eq_Some_conv)
        from z(1) eq have "Q z" using assms(3) [OF q True] by simp
        with IH [OF z(2)] eq show ?thesis by simp
      next
        case False
        with unf q show ?thesis by simp
      qed
    qed
  qed
  with assms(2) show ?thesis by simp
qed

lemma advance_loop_invariant:
  assumes "advance_loop U self jacobian_fn solution_times st = Some st'"
    and "Q st"
    and "\<And>x z. Q x \<Longrightarrow> advance_to_solution_time_cond (int (length solution_times)) x \<Longrightarrow>
           advance_to_solution_time U self jacobian_fn solution_times x = Some z \<Longrightarrow> Q z"
  shows "Q st' \<and> \<not> advance_to_solution_time_cond (int (length solution_times)) st'"
proof -
  have "U = U \<longrightarrow> self = self \<longrightarrow> jacobian_fn = jacobian_fn \<longrightarrow> solution_times = solution_times
          \<longrightarrow> Q st
          \<longrightarrow> Q st' \<and> \<not> advance_to_solution_time_cond (int (length solution_times)) st'"
  proof (rule advance_loop.raw_induct
      [where P = "\<lambda>V slf jf tms a b. V = U \<longrightarrow> slf = self \<longrightarrow> jf = jacobian_fn
                    \<longrightarrow> tms = solution_times \<longrightarrow> Q a
                    \<longrightarrow> Q b \<and> \<not> advance_to_solution_time_cond (int (length solution_times)) b",
        OF _ assms(1)])
    fix loop V slf jf tms a b
    assume IH: "\<And>V slf jf tms a b. loop V slf jf tms a = Some b \<Longrightarrow>
                  V = U \<longrightarrow> slf = self \<longrightarrow> jf = jacobian_fn \<longrightarrow> tms = solution_times \<longrightarrow> Q a
                    \<longrightarrow> Q b \<and> \<not> advance_to_solution_time_cond (int (length solution_times)) b"
      and unf: "(if advance_to_solution_time_cond (int (length tms)) a
                 then Option.bind (advance_to_solution_time V slf jf tms a) (loop V slf jf tms)
                 else Some a) = Some b"
    show "V = U \<longrightarrow> slf = self \<longrightarrow> jf = jacobian_fn \<longrightarrow> tms = solution_times \<longrightarrow> Q a
            \<longrightarrow> Q b \<and> \<not> advance_to_solution_time_cond (int (length solution_times)) b"
    proof (intro impI)
      assume eq: "V = U" "slf = self" "jf = jacobian_fn" "tms = solution_times" and q: "Q a"
      show "Q b \<and> \<not> advance_to_solution_time_cond (int (length solution_times)) b"
      proof (cases "advance_to_solution_time_cond (int (length solution_times)) a")
        case True
        with unf eq obtain z where z: "advance_to_solution_time V slf jf tms a = Some z"
            "loop V slf jf tms z = Some b"
          by (auto simp: bind_eq_Some_conv)
        from z(1) eq have "Q z" using assms(3) [OF q True] by simp
        with IH [OF z(2)] eq show ?thesis by simp
      next
        case False
        with unf q eq show ?thesis by simp
      qed
    qed
  qed
  with assms(2) show ?thesis by simp
qed

subsection \<open>step\<close>

text \<open>\<^verbatim>\<open>step\<close> is its prologue followed by the loop of attempts.\<close>

lemma step_enters_loop:
  "step U self jacobian_fn (next_time, d, it, s, state_vec, ts) =
     map_option (\<lambda>st. (next_time, ms_diagnostics st, ms_iterand st, ms_state st, state_vec, ts))
       (maybe_step_loop U self (step_entry self jacobian_fn next_time d it s))"
  by (simp add: step_def step_entry_def Let_def split_def ms_diagnostics_def ms_iterand_def
      ms_state_def split: option.splits)

text \<open>Under a budget of \<open>m\<close> steps the loop of attempts ends, and so does
  \<^verbatim>\<open>step\<close>, which makes at least one attempt.\<close>

lemma maybe_step_within_budget:
  assumes "max_num_steps self = Some m" and "num_steps it \<le> m"
  shows "within_budget m (ms_diagnostics (maybe_step U self (acc, d, it, s)))
           (ms_iterand (maybe_step U self (acc, d, it, s)))"
  using assms by (auto simp: within_budget_def maybe_step_fields at_status_eq)

lemma maybe_step_cond_iff:
  "maybe_step_cond st \<longleftrightarrow> \<not> ms_accepted st \<and> status (ms_diagnostics st) = 0"
  by (simp add: maybe_step_cond_def ms_accepted_def ms_diagnostics_def split_def)

lemma maybe_step_loop_returns:
  assumes "max_num_steps self = Some m"
    and "within_budget m (ms_diagnostics st) (ms_iterand st)"
  shows "\<exists>st'. maybe_step_loop U self st = Some st'"
  using assms(2)
proof (induction "nat (m + 1 - num_steps (ms_iterand st))" arbitrary: st rule: less_induct)
  case less
  show ?case
  proof (cases "maybe_step_cond st")
    case False
    then have "maybe_step_loop U self st = Some st"
      by (subst maybe_step_loop.simps) simp
    then show ?thesis ..
  next
    case True
    obtain acc d it s where st: "st = (acc, d, it, s)" by (cases st) auto
    from True have "status d = 0" by (simp add: maybe_step_cond_iff st ms_diagnostics_def)
    with less.prems have le: "num_steps it \<le> m"
      by (simp add: within_budget_def st ms_diagnostics_def ms_iterand_def)
    let ?st1 = "maybe_step U self st"
    have wb: "within_budget m (ms_diagnostics ?st1) (ms_iterand ?st1)"
      unfolding st by (rule maybe_step_within_budget [OF assms(1) le])
    have "num_steps (ms_iterand ?st1) = num_steps it + 1"
      by (simp add: st maybe_step_fields)
    with le have "nat (m + 1 - num_steps (ms_iterand ?st1)) < nat (m + 1 - num_steps (ms_iterand st))"
      by (simp add: st ms_iterand_def)
    from less.hyps [OF this wb] obtain st' where "maybe_step_loop U self ?st1 = Some st'" ..
    with True have "maybe_step_loop U self st = Some st'"
      by (subst maybe_step_loop.simps) simp
    then show ?thesis ..
  qed
qed


lemma maybe_step_loop_budget:
  assumes "max_num_steps self = Some m"
    and "within_budget m (ms_diagnostics st) (ms_iterand st)"
    and "maybe_step_loop U self st = Some st'"
  shows "within_budget m (ms_diagnostics st') (ms_iterand st')
     \<and> num_steps (ms_iterand st) \<le> num_steps (ms_iterand st')
     \<and> \<not> maybe_step_cond st'"
proof -
  let ?Q = "\<lambda>x. within_budget m (ms_diagnostics x) (ms_iterand x)
              \<and> num_steps (ms_iterand st) \<le> num_steps (ms_iterand x)"
  have keep: "?Q (maybe_step U self x)" if q: "?Q x" and c: "maybe_step_cond x" for x
  proof -
    obtain acc d it s where x: "x = (acc, d, it, s)" by (cases x) auto
    from c have "status d = 0" by (simp add: maybe_step_cond_iff x ms_diagnostics_def)
    with q have le: "num_steps it \<le> m"
      by (simp add: within_budget_def x ms_diagnostics_def ms_iterand_def)
    have "within_budget m (ms_diagnostics (maybe_step U self x)) (ms_iterand (maybe_step U self x))"
      unfolding x by (rule maybe_step_within_budget [OF assms(1) le])
    moreover have "num_steps (ms_iterand (maybe_step U self x)) = num_steps (ms_iterand x) + 1"
      unfolding x maybe_step_fields by (simp add: ms_iterand_def)
    ultimately show ?thesis using q by simp
  qed
  from maybe_step_loop_invariant [where Q = ?Q, OF assms(3) _ keep] assms(2)
  show ?thesis by simp
qed

lemma step_entry_fields:
  "ms_accepted (step_entry self jacobian_fn next_time d it s) = False"
  "status (ms_diagnostics (step_entry self jacobian_fn next_time d it s)) = status d"
  "num_steps (ms_iterand (step_entry self jacobian_fn next_time d it s)) = num_steps it"
  "time (ms_iterand (step_entry self jacobian_fn next_time d it s)) = time it"
  "ms_state (step_entry self jacobian_fn next_time d it s) = s"
  by (simp_all add: step_entry_def step_clamp_def step_jacobian_def ms_accepted_def
      ms_diagnostics_def ms_iterand_def ms_state_def Let_def)

lemma step_returns:
  assumes "max_num_steps self = Some m" and "within_budget m d it" and "status d = 0"
  shows "\<exists>d' it' s'. step U self jacobian_fn (next_time, d, it, s, state_vec, ts)
                       = Some (next_time, d', it', s', state_vec, ts)
           \<and> within_budget m d' it' \<and> num_steps it < num_steps it'"
proof -
  let ?e = "step_entry self jacobian_fn next_time d it s"
  obtain acc1 d1 it1 s1 where e: "?e = (acc1, d1, it1, s1)" by (cases ?e) auto
  have f: "acc1 = False" "status d1 = 0" "num_steps it1 = num_steps it"
    using step_entry_fields [of self jacobian_fn next_time d it s] assms(3)
    by (simp_all add: e ms_accepted_def ms_diagnostics_def ms_iterand_def)
  have c: "maybe_step_cond ?e" by (simp add: maybe_step_cond_iff step_entry_fields assms(3))
  from assms(2,3) have le: "num_steps it1 \<le> m" by (simp add: within_budget_def f)
  let ?st1 = "maybe_step U self ?e"
  have wb: "within_budget m (ms_diagnostics ?st1) (ms_iterand ?st1)"
    unfolding e by (rule maybe_step_within_budget [OF assms(1) le])
  have n1: "num_steps (ms_iterand ?st1) = num_steps it + 1"
    by (simp add: e maybe_step_fields f)
  from maybe_step_loop_returns [OF assms(1) wb]
  obtain st' where st': "maybe_step_loop U self ?st1 = Some st'" ..
  from c st' have loop: "maybe_step_loop U self ?e = Some st'"
    by (subst maybe_step_loop.simps) simp
  from maybe_step_loop_budget [OF assms(1) wb st'] n1
  have "within_budget m (ms_diagnostics st') (ms_iterand st')"
    and "num_steps it < num_steps (ms_iterand st')" by simp_all
  with loop show ?thesis by (simp add: step_enters_loop)
qed

lemma step_loop_returns:
  assumes "max_num_steps self = Some m" and "within_budget m d it"
  shows "\<exists>d' it' s'. step_loop U self jacobian_fn (next_time, d, it, s, state_vec, ts)
                       = Some (next_time, d', it', s', state_vec, ts)
           \<and> within_budget m d' it' \<and> num_steps it \<le> num_steps it'
           \<and> \<not> step_cond (next_time, d', it', s', state_vec, ts)"
  using assms(2)
proof (induction "nat (m + 1 - num_steps it)" arbitrary: d it s rule: less_induct)
  case less
  let ?st = "(next_time, d, it, s, state_vec, ts)"
  show ?case
  proof (cases "step_cond ?st")
    case False
    then have "step_loop U self jacobian_fn ?st = Some ?st"
      by (subst step_loop.simps) simp
    with False less.prems show ?thesis by auto
  next
    case True
    then have st0: "status d = 0" by (simp add: step_cond_def)
    with less.prems have le: "num_steps it \<le> m" by (simp add: within_budget_def)
    from step_returns [OF assms(1) less.prems st0]
    obtain d1 it1 s1 where
      s1: "step U self jacobian_fn ?st = Some (next_time, d1, it1, s1, state_vec, ts)"
      and wb: "within_budget m d1 it1" and lt: "num_steps it < num_steps it1"
      by blast
    from lt le have "nat (m + 1 - num_steps it1) < nat (m + 1 - num_steps it)" by simp
    from less.hyps [OF this wb]
    obtain d' it' s' where
      l: "step_loop U self jacobian_fn (next_time, d1, it1, s1, state_vec, ts)
            = Some (next_time, d', it', s', state_vec, ts)"
      and r: "within_budget m d' it'" "num_steps it1 \<le> num_steps it'"
        "\<not> step_cond (next_time, d', it', s', state_vec, ts)"
      by blast
    from True s1 l have "step_loop U self jacobian_fn ?st
        = Some (next_time, d', it', s', state_vec, ts)"
      by (subst step_loop.simps) simp
    with r lt show ?thesis by auto
  qed
qed

lemma advance_to_solution_time_returns:
  assumes "max_num_steps self = Some m" and "within_budget m d it"
  shows "\<exists>d' it' s'.
           advance_to_solution_time U self jacobian_fn solution_times (n, d, it, s, state_vec, ts)
             = Some (n + 1, d', it', s',
                 index_update state_vec n (jax_index (backward_differences s') 0),
                 index_update ts n (jax_index solution_times n))
           \<and> within_budget m d' it' \<and> num_steps it \<le> num_steps it'
           \<and> \<not> (time it' < jax_index solution_times n \<and> status d' = 0)"
proof -
  from step_loop_returns [OF assms, where U = U and jacobian_fn = jacobian_fn
      and next_time = "jax_index solution_times n" and s = s and state_vec = state_vec and ts = ts]
  obtain d' it' s' where
    l: "step_loop U self jacobian_fn (jax_index solution_times n, d, it, s, state_vec, ts)
          = Some (jax_index solution_times n, d', it', s', state_vec, ts)"
    and r: "within_budget m d' it'" "num_steps it \<le> num_steps it'"
      "\<not> step_cond (jax_index solution_times n, d', it', s', state_vec, ts)"
    by blast
  from l r show ?thesis
    by (simp add: advance_to_solution_time_def Let_def step_cond_def)
qed

lemma advance_loop_returns:
  assumes "max_num_steps self = Some m" and "within_budget m d it"
  shows "\<exists>st'. advance_loop U self jacobian_fn solution_times (n, d, it, s, state_vec, ts)
                 = Some st'"
  using assms(2)
proof (induction "nat (int (length solution_times) - n)" arbitrary: n d it s state_vec ts
    rule: less_induct)
  case less
  let ?st = "(n, d, it, s, state_vec, ts)"
  show ?case
  proof (cases "advance_to_solution_time_cond (int (length solution_times)) ?st")
    case False
    then have "advance_loop U self jacobian_fn solution_times ?st = Some ?st"
      by (subst advance_loop.simps) simp
    then show ?thesis ..
  next
    case True
    then have lt: "n < int (length solution_times)"
      by (simp add: advance_to_solution_time_cond_def)
    from advance_to_solution_time_returns [OF assms(1) less.prems]
    obtain d' it' s' where
      a: "advance_to_solution_time U self jacobian_fn solution_times ?st
            = Some (n + 1, d', it', s',
                index_update state_vec n (jax_index (backward_differences s') 0),
                index_update ts n (jax_index solution_times n))"
      and wb: "within_budget m d' it'"
      by blast
    from lt have "nat (int (length solution_times) - (n + 1)) < nat (int (length solution_times) - n)"
      by simp
    from less.hyps [OF this wb] obtain st' where
      "advance_loop U self jacobian_fn solution_times
         (n + 1, d', it', s', index_update state_vec n (jax_index (backward_differences s') 0),
          index_update ts n (jax_index solution_times n)) = Some st'" ..
    with True a have "advance_loop U self jacobian_fn solution_times ?st = Some st'"
      by (subst advance_loop.simps) simp
    then show ?thesis ..
  qed
qed

text \<open>Positive step sizes stay positive through an attempt, through the prologue of
  \<^verbatim>\<open>step\<close> when the target time is still ahead, and so through the three loops.\<close>

lemma maybe_step_positive:
  assumes "positive_factors self" and "positive_step_sizes it s"
  shows "positive_step_sizes (ms_iterand (maybe_step U self (acc, d, it, s)))
           (ms_state (maybe_step U self (acc, d, it, s)))"
proof -
  let ?r = "maybe_step U self (acc, d, it, s)"
  let ?h = "step_size (ms_state ?r)"
  note c = maybe_step_new_step_size_cases [of U self acc d it s]
  have h: "0 < ?h" using assms(2) c(1) by (simp add: positive_step_sizes_def)
  have "0 < new_step_size (ms_iterand ?r)"
  proof (cases "should_update_step_size (ms_iterand ?r)")
    case False
    with c(2) h show ?thesis by simp
  next
    case True
    show ?thesis
    proof (cases "at_newton_converged (maybe_step_attempt U self d it s)")
      case False
      with c(3) True h assms(1) show ?thesis by (simp add: positive_factors_def)
    next
      case True2: True
      from c(4) [OF True True2] obtain k e where
        "new_step_size (ms_iterand ?r) = next_step_size ?h k e (safety_factor self)
           (min_step_size_factor self) (max_step_size_factor self)" by blast
      with h assms(1) show ?thesis
        by (simp add: positive_factors_def next_step_size_positive)
    qed
  qed
  with h show ?thesis by (simp add: positive_step_sizes_def)
qed

lemma step_entry_positive:
  assumes "positive_step_sizes it s" and "time it < next_time"
  shows "positive_step_sizes (ms_iterand (step_entry self jacobian_fn next_time d it s))
           (ms_state (step_entry self jacobian_fn next_time d it s))"
  using assms
  by (simp add: positive_step_sizes_def step_entry_def step_clamp_def step_jacobian_def
      ms_iterand_def ms_state_def np_where_def Let_def)

lemma step_positive:
  assumes "positive_factors self" and "positive_step_sizes it s" and "time it < next_time"
    and "step U self jacobian_fn (next_time, d, it, s, state_vec, ts)
           = Some (next_time', d', it', s', state_vec', ts')"
  shows "positive_step_sizes it' s'"
proof -
  let ?e = "step_entry self jacobian_fn next_time d it s"
  from assms(4) obtain st' where l: "maybe_step_loop U self ?e = Some st'"
    and r: "it' = ms_iterand st'" "s' = ms_state st'"
    by (auto simp: step_enters_loop)
  let ?Q = "\<lambda>x. positive_step_sizes (ms_iterand x) (ms_state x)"
  have keep: "?Q (maybe_step U self x)" if "?Q x" for x
  proof -
    obtain a b c e where x: "x = (a, b, c, e)" by (cases x) auto
    from that have "positive_step_sizes c e" by (simp add: x ms_iterand_def ms_state_def)
    from maybe_step_positive [OF assms(1) this] show ?thesis by (simp add: x)
  qed
  from maybe_step_loop_invariant [where Q = ?Q, OF l step_entry_positive [OF assms(2,3)] keep]
  show ?thesis by (simp add: r)
qed

lemma step_loop_positive:
  assumes "positive_factors self" and "positive_step_sizes it s"
    and "step_loop U self jacobian_fn (next_time, d, it, s, state_vec, ts)
           = Some (next_time', d', it', s', state_vec', ts')"
  shows "positive_step_sizes it' s'"
proof -
  let ?Q = "\<lambda>x. case x of (nt, d, it, s, sv, ts) \<Rightarrow> positive_step_sizes it s"
  have keep: "?Q z" if "?Q x" and "step_cond x" and "step U self jacobian_fn x = Some z" for x z
  proof -
    obtain nt a b c sv t where x: "x = (nt, a, b, c, sv, t)" by (cases x) auto
    obtain nt' a' b' c' sv' t' where z: "z = (nt', a', b', c', sv', t')" by (cases z) auto
    from that(1,2) have "positive_step_sizes b c" "time b < nt"
      by (simp_all add: x step_cond_def)
    from step_positive [OF assms(1) this that(3) [unfolded x z]] show ?thesis by (simp add: z)
  qed
  from step_loop_invariant [where Q = ?Q, OF assms(3) _ keep] assms(2)
  show ?thesis by simp
qed

lemma advance_loop_positive:
  assumes "positive_factors self" and "positive_step_sizes it s"
    and "advance_loop U self jacobian_fn solution_times (n, d, it, s, state_vec, ts)
           = Some (n', d', it', s', state_vec', ts')"
  shows "positive_step_sizes it' s'"
proof -
  let ?Q = "\<lambda>x. case x of (n, d, it, s, sv, ts) \<Rightarrow> positive_step_sizes it s"
  have keep: "?Q z" if "?Q x"
    and "advance_to_solution_time U self jacobian_fn solution_times x = Some z" for x z
  proof -
    obtain k a b c sv t where x: "x = (k, a, b, c, sv, t)" by (cases x) auto
    from that(2) obtain nt a' b' c' sv' t' where
      l: "step_loop U self jacobian_fn (jax_index solution_times k, a, b, c, sv, t)
            = Some (nt, a', b', c', sv', t')"
      and z: "z = (k + 1, a', b', c',
                index_update sv' k (jax_index (backward_differences c') 0),
                index_update t' k (jax_index solution_times k))"
      by (auto simp: x advance_to_solution_time_def Let_def split: option.splits)
    from that(1) have "positive_step_sizes b c" by (simp add: x)
    from step_loop_positive [OF assms(1) this l] show ?thesis by (simp add: z)
  qed
  from advance_loop_invariant [where Q = ?Q, OF assms(3) _ keep] assms(2)
  show ?thesis by simp
qed

text \<open>On the concrete instance, a call of \<^verbatim>\<open>step\<close> that neither clamps nor has an
  update pending makes one attempt, which is accepted.\<close>

lemma stub_step:
  assumes "\<bar>jax_index (error_coefficients self) (order s)\<bar> < 1"
    and "num_steps_same_size it \<le> order s"
    and "\<not> new_step_size it > next_time - time it"
    and "\<not> should_update_step_size it"
    and "\<not> evaluate_jacobian_lazily self"
    and "status d = 0"
  shows "step (stub_util True) self jacobian_fn (next_time, d, it, s, state_vec, ts) =
     Some (next_time,
      \<lparr>num_jacobian_evaluations = num_jacobian_evaluations d + 1,
       num_matrix_factorizations = num_matrix_factorizations d + 1,
       num_ode_fn_evaluations = num_ode_fn_evaluations d + 1,
       status = (if Some (num_steps it) = max_num_steps self then - 1 else 0)\<rparr>,
      \<lparr>jacobian_mat = jacobian_fn (time it) (jax_index (backward_differences s) 0),
       jacobian_is_up_to_date = False,
       new_step_size = step_size s,
       num_steps = num_steps it + 1,
       num_steps_same_size = num_steps_same_size it + 1,
       should_update_jacobian = False,
       should_update_step_size = False,
       time = time it + step_size s,
       unitary = jacobian_fn (time it) (jax_index (backward_differences s) 0),
       upper = jacobian_fn (time it) (jax_index (backward_differences s) 0)\<rparr>,
      \<lparr>backward_differences = backward_differences s, order = order s,
       step_size = step_size s\<rparr>,
      state_vec, ts)"
proof -
  let ?it1 = "it\<lparr>jacobian_mat := jacobian_fn (time it) (jax_index (backward_differences s) 0)\<rparr>"
  let ?d1 = "d\<lparr>num_jacobian_evaluations := num_jacobian_evaluations d + 1\<rparr>"
  have e: "step_entry self jacobian_fn next_time d it s = (False, ?d1, ?it1, s)"
    using assms(3,4,5)
    by (simp add: step_entry_def step_clamp_def step_jacobian_def np_where_def Let_def)
  have m: "maybe_step (stub_util True) self (False, ?d1, ?it1, s) =
     (True,
      \<lparr>num_jacobian_evaluations = num_jacobian_evaluations d + 1,
       num_matrix_factorizations = num_matrix_factorizations d + 1,
       num_ode_fn_evaluations = num_ode_fn_evaluations d + 1,
       status = (if Some (num_steps it) = max_num_steps self then - 1 else 0)\<rparr>,
      \<lparr>jacobian_mat = jacobian_fn (time it) (jax_index (backward_differences s) 0),
       jacobian_is_up_to_date = False,
       new_step_size = step_size s,
       num_steps = num_steps it + 1,
       num_steps_same_size = num_steps_same_size it + 1,
       should_update_jacobian = False,
       should_update_step_size = False,
       time = time it + step_size s,
       unitary = jacobian_fn (time it) (jax_index (backward_differences s) 0),
       upper = jacobian_fn (time it) (jax_index (backward_differences s) 0)\<rparr>,
      \<lparr>backward_differences = backward_differences s, order = order s,
       step_size = step_size s\<rparr>)"
    using assms by (subst stub_accepted_step) simp_all
  have l: "maybe_step_loop (stub_util True) self (False, ?d1, ?it1, s) =
             Some (maybe_step (stub_util True) self (False, ?d1, ?it1, s))"
    apply (subst maybe_step_loop.simps)
    apply (simp add: maybe_step_cond_def assms(6))
    apply (subst maybe_step_loop.simps)
    apply (simp add: maybe_step_cond_def m)
    done
  show ?thesis
    by (simp add: step_enters_loop e l m ms_diagnostics_def ms_iterand_def ms_state_def)
qed

text \<open>A run on the concrete instance: a budget of one step, output times 3 and 5, a
  first step size of 1, every attempt accepted. The second attempt finds the budget used
  up at time 1; it is carried out all the same and brings the time to 2.\<close>

lemma stub_run:
  assumes "max_num_steps self = Some 1"
    and "\<bar>jax_index (error_coefficients self) 1\<bar> < 1"
    and "\<not> evaluate_jacobian_lazily self"
  shows "advance_loop (stub_util True) self (\<lambda>t y. [[0]]) [3, 5]
     (initial_advance_state s0 0 1 2) =
   Some (1,
     \<lparr>num_jacobian_evaluations = 2, num_matrix_factorizations = 2,
      num_ode_fn_evaluations = 2, status = - 1\<rparr>,
     \<lparr>jacobian_mat = [[0]], jacobian_is_up_to_date = False, new_step_size = 1,
      num_steps = 2, num_steps_same_size = 2, should_update_jacobian = False,
      should_update_step_size = False, time = 2, unitary = [[0]], upper = [[0]]\<rparr>,
     s0, [[1], [0]], [3, 0])"
proof -
  let ?U = "stub_util True"
  let ?jf = "\<lambda>(t::real) (y::vec). [[0::real]]"
  let ?d1 = "\<lparr>num_jacobian_evaluations = 1, num_matrix_factorizations = 1,
      num_ode_fn_evaluations = 1, status = 0\<rparr>"
  let ?it1 = "\<lparr>jacobian_mat = [[0]], jacobian_is_up_to_date = False, new_step_size = 1,
      num_steps = 1, num_steps_same_size = 1, should_update_jacobian = False,
      should_update_step_size = False, time = 1, unitary = [[0]], upper = [[0]]\<rparr>"
  let ?d2 = "\<lparr>num_jacobian_evaluations = 2, num_matrix_factorizations = 2,
      num_ode_fn_evaluations = 2, status = - 1\<rparr>"
  let ?it2 = "\<lparr>jacobian_mat = [[0]], jacobian_is_up_to_date = False, new_step_size = 1,
      num_steps = 2, num_steps_same_size = 2, should_update_jacobian = False,
      should_update_step_size = False, time = 2, unitary = [[0]], upper = [[0]]\<rparr>"
  let ?sv = "[[0], [0::real]]" and ?ts = "[0, 0::real]"
  have init: "initial_advance_state s0 0 1 2 = (0, d0, it0, s0, ?sv, ?ts)"
    by (simp add: initial_advance_state_def d0_def it0_def s0_def numeral_2_eq_2)
  have s1: "step ?U self ?jf (3, d0, it0, s0, ?sv, ?ts) = Some (3, ?d1, ?it1, s0, ?sv, ?ts)"
    using assms by (subst stub_step) (simp_all add: d0_def it0_def s0_def)
  have s2: "step ?U self ?jf (3, ?d1, ?it1, s0, ?sv, ?ts) = Some (3, ?d2, ?it2, s0, ?sv, ?ts)"
    using assms by (subst stub_step) (simp_all add: s0_def)
  have c0: "step_cond (3, d0, it0, s0, ?sv, ?ts)"
    by (simp add: step_cond_def d0_def it0_def)
  have c1: "step_cond (3, ?d1, ?it1, s0, ?sv, ?ts)" by (simp add: step_cond_def)
  have c2: "\<not> step_cond (3, ?d2, ?it2, s0, ?sv, ?ts)" by (simp add: step_cond_def)
  have l2: "step_loop ?U self ?jf (3, ?d2, ?it2, s0, ?sv, ?ts) = Some (3, ?d2, ?it2, s0, ?sv, ?ts)"
    using c2 by (subst step_loop.simps) simp
  have l1: "step_loop ?U self ?jf (3, ?d1, ?it1, s0, ?sv, ?ts) = Some (3, ?d2, ?it2, s0, ?sv, ?ts)"
    using c1 s2 l2 by (subst step_loop.simps) simp
  have l0: "step_loop ?U self ?jf (3, d0, it0, s0, ?sv, ?ts) = Some (3, ?d2, ?it2, s0, ?sv, ?ts)"
    using c0 s1 l1 by (subst step_loop.simps) simp
  have a: "advance_to_solution_time ?U self ?jf [3, 5] (0, d0, it0, s0, ?sv, ?ts)
             = Some (1, ?d2, ?it2, s0, [[1], [0]], [3, 0])"
    by (simp add: advance_to_solution_time_def Let_def jax_index_def l0 index_update_def)
       (simp add: s0_def)
  have e: "advance_loop ?U self ?jf [3, 5] (1, ?d2, ?it2, s0, [[1], [0]], [3, 0])
             = Some (1, ?d2, ?it2, s0, [[1], [0]], [3, 0])"
    by (subst advance_loop.simps) (simp add: advance_to_solution_time_cond_def)
  have c: "advance_to_solution_time_cond (int (length [3, 5 :: real])) (0, d0, it0, s0, ?sv, ?ts)"
    by (simp add: advance_to_solution_time_cond_def d0_def)
  show ?thesis
    unfolding init
    by (subst advance_loop.simps) (simp only: c if_True a e bind.bind_lunit)
qed


lemma solve_unfold:
  "solve U self ode_fn initial_time initial_state solution_times jacobian_fn =
     map_option
       (\<lambda>(n, d, it, s, state_vec, ts).
          \<lparr>times = ts, states = state_vec, diagnostics = d, solver_internal_state = s\<rparr>)
       (advance_loop U
          (fst (initialize_solver_internal_state U self ode_fn initial_time initial_state))
          jacobian_fn solution_times
          (initial_advance_state
             (snd (initialize_solver_internal_state U self ode_fn initial_time initial_state))
             initial_time (length initial_state) (length solution_times)))"
  by (simp add: solve_def split_def Let_def split: option.splits)

lemma stub_initialize:
  "initialize_solver_internal_state (stub_util True) (stub_solver b ecs) (\<lambda>t y. [0]) 0 [1] =
     ((stub_solver b ecs)
        \<lparr>ode_fn_vec := (\<lambda>t y. [0]),
         newton_coefficients :=
           fst (get_coefficients (stub_util True) (bdf_coefficients (stub_solver b ecs))),
         error_coefficients :=
           snd (get_coefficients (stub_util True) (bdf_coefficients (stub_solver b ecs)))\<rparr>,
      s0)"
  by (simp add: initialize_solver_internal_state_def Let_def split_def s0_def)
     (simp add: stub_util_def jax_index_def eval_nat_numeral)

lemma stub_first_error_coefficient:
  "jax_index (snd (get_coefficients (stub_util True) (bdf_coefficients (stub_solver b ecs)))) 1
     = 137 / 200"
  by (simp add: get_coefficients_def Let_def stub_util_def stub_solver_def jax_index_def)

text \<open>\<^verbatim>\<open>step\<close> and its loop leave the target time and the output arrays alone; the loop
  of \<^verbatim>\<open>_solve\<close> fills the arrays slot by slot.\<close>

lemma jax_index_in_range:
  assumes "0 \<le> i" and "nat i < length xs"
  shows "jax_index xs i = xs ! nat i"
proof -
  from assms have "i \<le> int (length xs) - 1" by linarith
  with assms(1) have "max 0 (min (int (length xs) - 1) i) = i" by simp
  with assms(1) show ?thesis by (simp add: jax_index_def Let_def)
qed

lemma maybe_step_status:
  "status (ms_diagnostics (maybe_step U self (acc, d, it, s))) = 0
   \<or> status (ms_diagnostics (maybe_step U self (acc, d, it, s))) = - 1"
  by (simp add: maybe_step_fields at_status_eq)

lemma step_frame:
  assumes "step U self jacobian_fn (next_time, d, it, s, state_vec, ts)
             = Some (next_time', d', it', s', state_vec', ts')"
    and "status d = 0 \<or> status d = - 1"
  shows "next_time' = next_time \<and> state_vec' = state_vec \<and> ts' = ts
     \<and> (status d' = 0 \<or> status d' = - 1)"
proof -
  let ?e = "step_entry self jacobian_fn next_time d it s"
  from assms(1) obtain st' where l: "maybe_step_loop U self ?e = Some st'"
    and r: "d' = ms_diagnostics st'" "next_time' = next_time" "state_vec' = state_vec" "ts' = ts"
    by (auto simp: step_enters_loop)
  let ?Q = "\<lambda>x. status (ms_diagnostics x) = 0 \<or> status (ms_diagnostics x) = - 1"
  have keep: "?Q (maybe_step U self x)" for x
    by (cases x) (simp add: maybe_step_status)
  have "?Q ?e" using assms(2) by (simp add: step_entry_fields)
  from maybe_step_loop_invariant [where Q = ?Q, OF l this keep] r show ?thesis by simp
qed

lemma step_loop_frame:
  assumes "step_loop U self jacobian_fn (next_time, d, it, s, state_vec, ts)
             = Some (next_time', d', it', s', state_vec', ts')"
    and "status d = 0 \<or> status d = - 1"
  shows "next_time' = next_time \<and> state_vec' = state_vec \<and> ts' = ts
     \<and> (status d' = 0 \<or> status d' = - 1)
     \<and> \<not> (time it' < next_time \<and> status d' = 0)"
proof -
  let ?Q = "\<lambda>x. case x of (nt, a, b, c, sv, t) \<Rightarrow>
              nt = next_time \<and> sv = state_vec \<and> t = ts \<and> (status a = 0 \<or> status a = - 1)"
  have keep: "?Q z" if "?Q x" and "step U self jacobian_fn x = Some z" for x z
  proof -
    obtain nt a b c sv t where x: "x = (nt, a, b, c, sv, t)" by (cases x) auto
    obtain nt' a' b' c' sv' t' where z: "z = (nt', a', b', c', sv', t')" by (cases z) auto
    from that(1) have "status a = 0 \<or> status a = - 1" by (simp add: x)
    from step_frame [OF that(2) [unfolded x z] this] that(1) show ?thesis by (simp add: x z)
  qed
  from step_loop_invariant [where Q = ?Q, OF assms(1) _ keep] assms(2)
  show ?thesis by (simp add: step_cond_def)
qed


lemma advance_to_solution_time_form:
  assumes "advance_to_solution_time U self jacobian_fn solution_times (n, d, it, s, state_vec, ts)
             = Some z"
    and "status d = 0 \<or> status d = - 1"
  shows "\<exists>d' it' s'. z = (n + 1, d', it', s',
             index_update state_vec n (jax_index (backward_differences s') 0),
             index_update ts n (jax_index solution_times n))
           \<and> (status d' = 0 \<or> status d' = - 1)"
proof -
  from assms(1) obtain nt d' it' s' sv' t' where
    l: "step_loop U self jacobian_fn (jax_index solution_times n, d, it, s, state_vec, ts)
          = Some (nt, d', it', s', sv', t')"
    and z: "z = (n + 1, d', it', s',
              index_update sv' n (jax_index (backward_differences s') 0),
              index_update t' n (jax_index solution_times n))"
    by (auto simp: advance_to_solution_time_def Let_def split: option.splits)
  from step_loop_frame [OF l assms(2)] z show ?thesis by simp
qed

text \<open>Under a budget of \<open>m\<close> steps the loop of \<^verbatim>\<open>_solve\<close> returns, within the
  budget.\<close>

lemma advance_loop_budget:
  assumes "max_num_steps self = Some m" and "within_budget m d it"
  shows "\<exists>n' d' it' s' state_vec' ts'.
           advance_loop U self jacobian_fn solution_times (n, d, it, s, state_vec, ts)
             = Some (n', d', it', s', state_vec', ts')
           \<and> within_budget m d' it'"
proof -
  from advance_loop_returns [OF assms, where U = U and jacobian_fn = jacobian_fn
      and solution_times = solution_times and n = n and s = s and state_vec = state_vec
      and ts = ts]
  obtain st' where l: "advance_loop U self jacobian_fn solution_times
      (n, d, it, s, state_vec, ts) = Some st'" ..
  let ?Q = "\<lambda>x. case x of (j, a, b, c, sv, t) \<Rightarrow> within_budget m a b"
  have keep: "?Q z" if "?Q x"
    and "advance_to_solution_time U self jacobian_fn solution_times x = Some z" for x z
  proof -
    obtain j a b c sv t where x: "x = (j, a, b, c, sv, t)" by (cases x) auto
    from that(1) have "within_budget m a b" by (simp add: x)
    from advance_to_solution_time_returns [OF assms(1) this, where U = U
        and jacobian_fn = jacobian_fn and solution_times = solution_times and n = j and s = c
        and state_vec = sv and ts = t] that(2)
    show ?thesis by (auto simp: x)
  qed
  from advance_loop_invariant [where Q = ?Q, OF l _ keep] assms(2)
  have "?Q st'" by simp
  with l show ?thesis by (cases st') auto
qed

lemma initial_within_budget:
  assumes "0 \<le> m"
  shows "initial_advance_state s t0 k N =
           (0, \<lparr>num_jacobian_evaluations = 0, num_matrix_factorizations = 0,
                 num_ode_fn_evaluations = 0, status = 0\<rparr>,
            \<lparr>jacobian_mat = replicate k (replicate k 0), jacobian_is_up_to_date = False,
             new_step_size = step_size s, num_steps = 0, num_steps_same_size = 0,
             should_update_jacobian = True, should_update_step_size = False, time = t0,
             unitary = replicate k (replicate k 0), upper = replicate k (replicate k 0)\<rparr>,
            s, replicate N (replicate k 0), replicate N 0)"
    and "within_budget m \<lparr>num_jacobian_evaluations = 0, num_matrix_factorizations = 0,
                 num_ode_fn_evaluations = 0, status = 0\<rparr>
            \<lparr>jacobian_mat = replicate k (replicate k 0), jacobian_is_up_to_date = False,
             new_step_size = step_size s, num_steps = 0, num_steps_same_size = 0,
             should_update_jacobian = True, should_update_step_size = False, time = t0,
             unitary = replicate k (replicate k 0), upper = replicate k (replicate k 0)\<rparr>"
  using assms by (simp_all add: initial_advance_state_def within_budget_def)

lemma initialize_keeps_budget:
  "max_num_steps (fst (initialize_solver_internal_state U self ode_fn initial_time initial_state))
     = max_num_steps self"
  by (simp add: initialize_solver_internal_state_def Let_def split_def)

text \<open>The status code and the counter of attempts through the loops, and the trace of
  the loop of \<^verbatim>\<open>_solve\<close>: what each pass found and what it wrote.\<close>

lemma maybe_step_budget_state:
  assumes "max_num_steps self = Some m" and "num_steps it \<le> m"
  shows "budget_state m (ms_diagnostics (maybe_step U self (acc, d, it, s)))
           (ms_iterand (maybe_step U self (acc, d, it, s)))"
  using assms by (auto simp: budget_state_def maybe_step_fields at_status_eq)

lemma step_budget_state:
  assumes "max_num_steps self = Some m" and "budget_state m d it"
    and "step U self jacobian_fn (next_time, d, it, s, state_vec, ts)
           = Some (next_time', d', it', s', state_vec', ts')"
  shows "budget_state m d' it'"
proof -
  let ?e = "step_entry self jacobian_fn next_time d it s"
  from assms(3) obtain st' where l: "maybe_step_loop U self ?e = Some st'"
    and r: "d' = ms_diagnostics st'" "it' = ms_iterand st'"
    by (auto simp: step_enters_loop)
  let ?Q = "\<lambda>x. budget_state m (ms_diagnostics x) (ms_iterand x)"
  have keep: "?Q (maybe_step U self x)" if q: "?Q x" and c: "maybe_step_cond x" for x
  proof -
    obtain a b c e where x: "x = (a, b, c, e)" by (cases x) auto
    from c have "status b = 0" by (simp add: maybe_step_cond_iff x ms_diagnostics_def)
    with q have "num_steps c \<le> m"
      by (simp add: budget_state_def x ms_diagnostics_def ms_iterand_def)
    from maybe_step_budget_state [OF assms(1) this] show ?thesis unfolding x .
  qed
  have "?Q ?e" using assms(2) by (simp add: budget_state_def step_entry_fields)
  from maybe_step_loop_invariant [where Q = ?Q, OF l this keep] r show ?thesis by simp
qed

lemma step_loop_budget_state:
  assumes "max_num_steps self = Some m" and "budget_state m d it"
    and "step_loop U self jacobian_fn (next_time, d, it, s, state_vec, ts)
           = Some (next_time', d', it', s', state_vec', ts')"
  shows "budget_state m d' it'"
proof -
  let ?Q = "\<lambda>x. case x of (nt, a, b, c, sv, t) \<Rightarrow> budget_state m a b"
  have keep: "?Q z" if "?Q x" and "step U self jacobian_fn x = Some z" for x z
  proof -
    obtain nt a b c sv t where x: "x = (nt, a, b, c, sv, t)" by (cases x) auto
    obtain nt' a' b' c' sv' t' where z: "z = (nt', a', b', c', sv', t')" by (cases z) auto
    from that(1) have "budget_state m a b" by (simp add: x)
    from step_budget_state [OF assms(1) this that(2) [unfolded x z]] show ?thesis by (simp add: z)
  qed
  from step_loop_invariant [where Q = ?Q, OF assms(3) _ keep] assms(2)
  show ?thesis by simp
qed

lemma advance_to_solution_time_effect:
  assumes "max_num_steps self = Some m" and "budget_state m d it"
    and "advance_to_solution_time U self jacobian_fn solution_times (n, d, it, s, state_vec, ts)
           = Some z"
  shows "\<exists>d' it' s'. z = (n + 1, d', it', s',
             index_update state_vec n (jax_index (backward_differences s') 0),
             index_update ts n (jax_index solution_times n))
           \<and> budget_state m d' it'
           \<and> \<not> (time it' < jax_index solution_times n \<and> status d' = 0)"
proof -
  from assms(3) obtain nt d' it' s' sv' t' where
    l: "step_loop U self jacobian_fn (jax_index solution_times n, d, it, s, state_vec, ts)
          = Some (nt, d', it', s', sv', t')"
    and z: "z = (n + 1, d', it', s',
              index_update sv' n (jax_index (backward_differences s') 0),
              index_update t' n (jax_index solution_times n))"
    by (auto simp: advance_to_solution_time_def Let_def split: option.splits)
  from assms(2) have "status d = 0 \<or> status d = - 1" by (auto simp: budget_state_def)
  from step_loop_frame [OF l this] step_loop_budget_state [OF assms(1,2) l] z
  show ?thesis by simp
qed

lemma advance_loop_trace:
  assumes m: "max_num_steps self = Some m"
    and l: "advance_loop U self jacobian_fn solution_times (0, d, it, s, sv0, ts0) = Some fin"
    and b: "status d = 0" "num_steps it \<le> m"
    and len: "length sv0 = length solution_times" "length ts0 = length solution_times"
  shows "\<exists>n d' it' s' sv' ts'. fin = (int n, d', it', s', sv', ts')
     \<and> n \<le> length solution_times
     \<and> advance_steps U self jacobian_fn solution_times n (0, d, it, s, sv0, ts0) = Some fin
     \<and> length sv' = length solution_times \<and> length ts' = length solution_times
     \<and> (status d' = 0 \<and> n = length solution_times \<and> num_steps it' \<le> m
        \<or> status d' = - 1 \<and> 0 < n \<and> num_steps it' = m + 1)
     \<and> (\<forall>i<n. \<exists>da ita sa sva tsa db itb sb svb tsb.
            advance_steps U self jacobian_fn solution_times i (0, d, it, s, sv0, ts0)
              = Some (int i, da, ita, sa, sva, tsa)
          \<and> status da = 0 \<and> num_steps ita \<le> m
          \<and> advance_steps U self jacobian_fn solution_times (Suc i) (0, d, it, s, sv0, ts0)
              = Some (int (Suc i), db, itb, sb, svb, tsb)
          \<and> ts' ! i = solution_times ! i
          \<and> sv' ! i = jax_index (backward_differences sb) 0
          \<and> (status db = 0 \<longrightarrow> solution_times ! i \<le> time itb))
     \<and> (\<forall>i. n \<le> i \<and> i < length solution_times \<longrightarrow> ts' ! i = ts0 ! i \<and> sv' ! i = sv0 ! i)"
proof -
  let ?N = "length solution_times"
  let ?init = "(0::int, d, it, s, sv0, ts0)"
  let ?A = "\<lambda>k. advance_steps U self jacobian_fn solution_times k ?init"
  define R where "R = (\<lambda>(k::nat) (sv::mat) (t::vec).
     \<forall>i<k. \<exists>da ita sa sva tsa db itb sb svb tsb.
            ?A i = Some (int i, da, ita, sa, sva, tsa)
          \<and> status da = 0 \<and> num_steps ita \<le> m
          \<and> ?A (Suc i) = Some (int (Suc i), db, itb, sb, svb, tsb)
          \<and> t ! i = solution_times ! i
          \<and> sv ! i = jax_index (backward_differences sb) 0
          \<and> (status db = 0 \<longrightarrow> solution_times ! i \<le> time itb))"
  define Z where "Z = (\<lambda>(k::nat) (sv::mat) (t::vec).
     \<forall>i. k \<le> i \<and> i < ?N \<longrightarrow> t ! i = ts0 ! i \<and> sv ! i = sv0 ! i)"
  define Q where "Q = (\<lambda>x::advance_state. \<exists>k a b c sv t.
       x = (int k, a, b, c, sv, t) \<and> k \<le> ?N \<and> ?A k = Some x
     \<and> length sv = ?N \<and> length t = ?N \<and> budget_state m a b
     \<and> (status a = - 1 \<longrightarrow> 0 < k) \<and> R k sv t \<and> Z k sv t)"
  have init: "Q ?init"
  proof -
    have "?init = (int 0, d, it, s, sv0, ts0)" "0 \<le> ?N" "?A 0 = Some ?init"
      "budget_state m d it" "status d = - 1 \<longrightarrow> (0::nat) < 0" "R 0 sv0 ts0" "Z 0 sv0 ts0"
      using b by (simp_all add: budget_state_def R_def Z_def)
    with len show ?thesis unfolding Q_def by blast
  qed
  have keep: "Q z" if q: "Q x"
    and c: "advance_to_solution_time_cond (int ?N) x"
    and a: "advance_to_solution_time U self jacobian_fn solution_times x = Some z" for x z
  proof -
    from q obtain k a0 b0 c0 sv t where x: "x = (int k, a0, b0, c0, sv, t)"
      and Ak: "?A k = Some x" and lens: "length sv = ?N" "length t = ?N"
      and bs: "budget_state m a0 b0" and r: "R k sv t" and zz: "Z k sv t"
      unfolding Q_def by blast
    from c have lt: "k < ?N" and st0: "status a0 = 0"
      by (simp_all add: x advance_to_solution_time_cond_def)
    from bs st0 have le0: "num_steps b0 \<le> m" by (simp add: budget_state_def)
    from advance_to_solution_time_effect [OF m bs a [unfolded x]]
    obtain a1 b1 c1 where
      z: "z = (int k + 1, a1, b1, c1,
             index_update sv (int k) (jax_index (backward_differences c1) 0),
             index_update t (int k) (jax_index solution_times (int k)))"
      and bs1: "budget_state m a1 b1"
      and ex1: "\<not> (time b1 < jax_index solution_times (int k) \<and> status a1 = 0)"
      by blast
    have j: "jax_index solution_times (int k) = solution_times ! k"
      using jax_index_in_range [of "int k" solution_times] lt by simp
    let ?sv1 = "sv[k := jax_index (backward_differences c1) 0]"
    let ?t1 = "t[k := solution_times ! k]"
    have z': "z = (int (Suc k), a1, b1, c1, ?sv1, ?t1)"
      by (simp add: z index_update_def j add.commute)
    have As: "?A (Suc k) = Some z" using Ak a by simp
    have len1: "length ?sv1 = ?N" "length ?t1 = ?N" using lens by simp_all
    from ex1 have reach: "status a1 = 0 \<longrightarrow> solution_times ! k \<le> time b1"
      by (auto simp: j)
    have r1: "R (Suc k) ?sv1 ?t1"
      unfolding R_def
    proof (intro allI impI)
      fix i assume i: "i < Suc k"
      show "\<exists>da ita sa sva tsa db itb sb svb tsb.
            ?A i = Some (int i, da, ita, sa, sva, tsa)
          \<and> status da = 0 \<and> num_steps ita \<le> m
          \<and> ?A (Suc i) = Some (int (Suc i), db, itb, sb, svb, tsb)
          \<and> ?t1 ! i = solution_times ! i
          \<and> ?sv1 ! i = jax_index (backward_differences sb) 0
          \<and> (status db = 0 \<longrightarrow> solution_times ! i \<le> time itb)"
      proof (cases "i = k")
        case True
        have p1: "?A i = Some (int i, a0, b0, c0, sv, t)" using Ak x True by simp
        have p2: "?A (Suc i) = Some (int (Suc i), a1, b1, c1, ?sv1, ?t1)"
          using As z' True by simp
        have p3: "?t1 ! i = solution_times ! i" using True lt lens by simp
        have p4: "?sv1 ! i = jax_index (backward_differences c1) 0" using True lt lens by simp
        from reach have p5: "status a1 = 0 \<longrightarrow> solution_times ! i \<le> time b1"
          using True by simp
        from p1 st0 le0 p2 p3 p4 p5 show ?thesis by blast
      next
        case False
        with i have ik: "i < k" by simp
        from r [unfolded R_def, rule_format, OF ik] obtain da ita sa sva tsa db itb sb svb tsb where
          o: "?A i = Some (int i, da, ita, sa, sva, tsa)"
            "status da = 0" "num_steps ita \<le> m"
            "?A (Suc i) = Some (int (Suc i), db, itb, sb, svb, tsb)"
            "t ! i = solution_times ! i"
            "sv ! i = jax_index (backward_differences sb) 0"
            "status db = 0 \<longrightarrow> solution_times ! i \<le> time itb"
          by blast
        from False have n1: "?t1 ! i = t ! i" "?sv1 ! i = sv ! i" by simp_all
        from o(5,6) n1 have o': "?t1 ! i = solution_times ! i"
          "?sv1 ! i = jax_index (backward_differences sb) 0" by simp_all
        from o(1,2,3,4) o' o(7) show ?thesis by blast
      qed
    qed
    have z1: "Z (Suc k) ?sv1 ?t1"
      using zz unfolding Z_def by auto
    have k1: "Suc k \<le> ?N" using lt by simp
    have pos: "status a1 = - 1 \<longrightarrow> 0 < Suc k" by simp
    from z' k1 As len1 bs1 pos r1 z1 show ?thesis unfolding Q_def by blast
  qed
  from advance_loop_invariant [where Q = Q, OF l init keep]
  have qf: "Q fin" and ex: "\<not> advance_to_solution_time_cond (int ?N) fin" by simp_all
  from qf obtain n d' it' s' sv' ts' where fin: "fin = (int n, d', it', s', sv', ts')"
    and nN: "n \<le> ?N" and An: "?A n = Some fin"
    and lens: "length sv' = ?N" "length ts' = ?N"
    and bs: "budget_state m d' it'" and pos: "status d' = - 1 \<longrightarrow> 0 < n"
    and r: "R n sv' ts'" and zz: "Z n sv' ts'"
    unfolding Q_def by blast
  from ex have e: "\<not> (n < ?N \<and> status d' = 0)"
    by (simp add: fin advance_to_solution_time_cond_def)
  from bs e nN pos have st: "status d' = 0 \<and> n = ?N \<and> num_steps it' \<le> m
        \<or> status d' = - 1 \<and> 0 < n \<and> num_steps it' = m + 1"
    by (auto simp: budget_state_def)
  from fin nN An lens st r [unfolded R_def] zz [unfolded Z_def]
  show ?thesis by blast
qed

lemma solve_passes_eq:
  "solve_passes U self ode_fn initial_time initial_state solution_times jacobian_fn k =
     advance_steps U
       (fst (initialize_solver_internal_state U self ode_fn initial_time initial_state))
       jacobian_fn solution_times k
       (initial_advance_state
          (snd (initialize_solver_internal_state U self ode_fn initial_time initial_state))
          initial_time (length initial_state) (length solution_times))"
  by (simp add: solve_passes_def split_def Let_def)

text \<open>Two passes of that loop on the concrete instance: a budget of one step, output
  times 1 and 5. The first pass reaches time 1 with status 0; the second finds the budget
  used up and stops at time 2, and slot 1 is written with the time 5.\<close>

lemma stub_passes:
  assumes "max_num_steps self = Some 1"
    and "\<bar>jax_index (error_coefficients self) 1\<bar> < 1"
    and "\<not> evaluate_jacobian_lazily self"
  shows "advance_to_solution_time (stub_util True) self (\<lambda>t y. [[0]]) [1, 5]
           (0, d0, it0, s0, [[0], [0]], [0, 0]) =
         Some (1,
           \<lparr>num_jacobian_evaluations = 1, num_matrix_factorizations = 1,
            num_ode_fn_evaluations = 1, status = 0\<rparr>,
           \<lparr>jacobian_mat = [[0]], jacobian_is_up_to_date = False, new_step_size = 1,
            num_steps = 1, num_steps_same_size = 1, should_update_jacobian = False,
            should_update_step_size = False, time = 1, unitary = [[0]], upper = [[0]]\<rparr>,
           s0, [[1], [0]], [1, 0])"
    and "advance_to_solution_time (stub_util True) self (\<lambda>t y. [[0]]) [1, 5]
           (1,
            \<lparr>num_jacobian_evaluations = 1, num_matrix_factorizations = 1,
             num_ode_fn_evaluations = 1, status = 0\<rparr>,
            \<lparr>jacobian_mat = [[0]], jacobian_is_up_to_date = False, new_step_size = 1,
             num_steps = 1, num_steps_same_size = 1, should_update_jacobian = False,
             should_update_step_size = False, time = 1, unitary = [[0]], upper = [[0]]\<rparr>,
            s0, [[1], [0]], [1, 0]) =
         Some (2,
           \<lparr>num_jacobian_evaluations = 2, num_matrix_factorizations = 2,
            num_ode_fn_evaluations = 2, status = - 1\<rparr>,
           \<lparr>jacobian_mat = [[0]], jacobian_is_up_to_date = False, new_step_size = 1,
            num_steps = 2, num_steps_same_size = 2, should_update_jacobian = False,
            should_update_step_size = False, time = 2, unitary = [[0]], upper = [[0]]\<rparr>,
           s0, [[1], [1]], [1, 5])"
proof -
  let ?U = "stub_util True"
  let ?jf = "\<lambda>(t::real) (y::vec). [[0::real]]"
  let ?d1 = "\<lparr>num_jacobian_evaluations = 1, num_matrix_factorizations = 1,
      num_ode_fn_evaluations = 1, status = 0\<rparr>"
  let ?it1 = "\<lparr>jacobian_mat = [[0]], jacobian_is_up_to_date = False, new_step_size = 1,
      num_steps = 1, num_steps_same_size = 1, should_update_jacobian = False,
      should_update_step_size = False, time = 1, unitary = [[0]], upper = [[0]]\<rparr>"
  let ?d2 = "\<lparr>num_jacobian_evaluations = 2, num_matrix_factorizations = 2,
      num_ode_fn_evaluations = 2, status = - 1\<rparr>"
  let ?it2 = "\<lparr>jacobian_mat = [[0]], jacobian_is_up_to_date = False, new_step_size = 1,
      num_steps = 2, num_steps_same_size = 2, should_update_jacobian = False,
      should_update_step_size = False, time = 2, unitary = [[0]], upper = [[0]]\<rparr>"
  let ?sv = "[[0], [0::real]]" and ?ts = "[0, 0::real]"
  let ?sv1 = "[[1], [0::real]]" and ?ts1 = "[1, 0::real]"
  have s1: "step ?U self ?jf (1, d0, it0, s0, ?sv, ?ts) = Some (1, ?d1, ?it1, s0, ?sv, ?ts)"
    using assms by (subst stub_step) (simp_all add: d0_def it0_def s0_def)
  have s2: "step ?U self ?jf (5, ?d1, ?it1, s0, ?sv1, ?ts1) = Some (5, ?d2, ?it2, s0, ?sv1, ?ts1)"
    using assms by (subst stub_step) (simp_all add: s0_def)
  have c0: "step_cond (1, d0, it0, s0, ?sv, ?ts)"
    by (simp add: step_cond_def d0_def it0_def)
  have c1: "\<not> step_cond (1, ?d1, ?it1, s0, ?sv, ?ts)" by (simp add: step_cond_def)
  have c2: "step_cond (5, ?d1, ?it1, s0, ?sv1, ?ts1)" by (simp add: step_cond_def)
  have c3: "\<not> step_cond (5, ?d2, ?it2, s0, ?sv1, ?ts1)" by (simp add: step_cond_def)
  have l1: "step_loop ?U self ?jf (1, ?d1, ?it1, s0, ?sv, ?ts) = Some (1, ?d1, ?it1, s0, ?sv, ?ts)"
    using c1 by (subst step_loop.simps) simp
  have l0: "step_loop ?U self ?jf (1, d0, it0, s0, ?sv, ?ts) = Some (1, ?d1, ?it1, s0, ?sv, ?ts)"
    using c0 s1 l1 by (subst step_loop.simps) simp
  have l3: "step_loop ?U self ?jf (5, ?d2, ?it2, s0, ?sv1, ?ts1)
      = Some (5, ?d2, ?it2, s0, ?sv1, ?ts1)"
    using c3 by (subst step_loop.simps) simp
  have l2: "step_loop ?U self ?jf (5, ?d1, ?it1, s0, ?sv1, ?ts1)
      = Some (5, ?d2, ?it2, s0, ?sv1, ?ts1)"
    using c2 s2 l3 by (subst step_loop.simps) simp
  show "advance_to_solution_time ?U self ?jf [1, 5] (0, d0, it0, s0, ?sv, ?ts)
          = Some (1, ?d1, ?it1, s0, ?sv1, ?ts1)"
    by (simp add: advance_to_solution_time_def Let_def jax_index_def l0 index_update_def)
       (simp add: s0_def)
  show "advance_to_solution_time ?U self ?jf [1, 5] (1, ?d1, ?it1, s0, ?sv1, ?ts1)
          = Some (2, ?d2, ?it2, s0, [[1], [1]], [1, 5])"
    by (simp add: advance_to_solution_time_def Let_def jax_index_def l2 index_update_def)
       (simp add: s0_def)
qed

text \<open>Claim C6. Every invocation of \<^verbatim>\<open>step\<close> is the loop of attempts started from
  \<open>accepted = False\<close>, the internal state it received and the iterand of its prologue.
  In that iterand: if the pending new step size exceeded the target time minus the
  current time, the new step size is exactly that difference and a step-size update is
  forced; otherwise the pending step size and the flag \<open>should_update_step_size\<close> are
  as they were. So the first attempt runs with the clamped step size.\<close>

theorem step_clamps_pending_step_size:
  "step U self jacobian_fn (next_time, d, it, s, state_vec, ts) =
     (case maybe_step_loop U self (step_entry self jacobian_fn next_time d it s) of
        None \<Rightarrow> None
      | Some (accepted1, d1, it1, s1) \<Rightarrow> Some (next_time, d1, it1, s1, state_vec, ts))
   \<and> ms_accepted (step_entry self jacobian_fn next_time d it s) = False
   \<and> ms_state (step_entry self jacobian_fn next_time d it s) = s
   \<and> (new_step_size it > next_time - time it \<longrightarrow>
      new_step_size (ms_iterand (step_entry self jacobian_fn next_time d it s))
        = next_time - time it
      \<and> should_update_step_size (ms_iterand (step_entry self jacobian_fn next_time d it s)))
   \<and> (\<not> new_step_size it > next_time - time it \<longrightarrow>
      new_step_size (ms_iterand (step_entry self jacobian_fn next_time d it s))
        = new_step_size it
      \<and> should_update_step_size (ms_iterand (step_entry self jacobian_fn next_time d it s))
        = should_update_step_size it)
   \<and> step_size (ms_state (maybe_step U self (step_entry self jacobian_fn next_time d it s)))
        = (if new_step_size it > next_time - time it then next_time - time it
           else if should_update_step_size it then new_step_size it else step_size s)"
proof -
  let ?e = "step_entry self jacobian_fn next_time d it s"
  have 1: "step U self jacobian_fn (next_time, d, it, s, state_vec, ts) =
     (case maybe_step_loop U self ?e of
        None \<Rightarrow> None
      | Some (accepted1, d1, it1, s1) \<Rightarrow> Some (next_time, d1, it1, s1, state_vec, ts))"
    by (simp add: step_def step_entry_def Let_def split_def split: option.splits)
  have 2: "ms_accepted ?e = False" "ms_state ?e = s" by (simp_all add: step_entry_fields)
  have 3: "new_step_size it > next_time - time it \<longrightarrow>
      new_step_size (ms_iterand ?e) = next_time - time it
      \<and> should_update_step_size (ms_iterand ?e)"
    by (simp add: step_entry_def step_clamp_def step_jacobian_def ms_iterand_def np_where_def
        Let_def)
  have 4: "\<not> new_step_size it > next_time - time it \<longrightarrow>
      new_step_size (ms_iterand ?e) = new_step_size it
      \<and> should_update_step_size (ms_iterand ?e) = should_update_step_size it"
    by (simp add: step_entry_def step_clamp_def step_jacobian_def ms_iterand_def np_where_def
        Let_def)
  obtain a1 d1 it1 s1 where e: "?e = (a1, d1, it1, s1)" by (cases ?e) auto
  from 2 3 4 have f: "s1 = s"
    "new_step_size it > next_time - time it \<longrightarrow>
       new_step_size it1 = next_time - time it \<and> should_update_step_size it1"
    "\<not> new_step_size it > next_time - time it \<longrightarrow>
       new_step_size it1 = new_step_size it
       \<and> should_update_step_size it1 = should_update_step_size it"
    by (simp_all add: e ms_state_def ms_iterand_def)
  have 5: "step_size (ms_state (maybe_step U self ?e))
        = (if new_step_size it > next_time - time it then next_time - time it
           else if should_update_step_size it then new_step_size it else step_size s)"
    unfolding e maybe_step_fields at_step_size_eq using f by auto
  from 1 2 3 4 5 show ?thesis by (intro conjI)
qed

theorem step_clamps_pending_step_size_witness:
  "(new_step_size it0 > 1 / 2 - time it0
      \<and> step (stub_util True) (stub_solver None []) (\<lambda>t y. [[0]]) (1 / 2, d0, it0, s0, [], []) =
         (case maybe_step_loop (stub_util True) (stub_solver None [])
                 (step_entry (stub_solver None []) (\<lambda>t y. [[0]]) (1 / 2) d0 it0 s0) of
            None \<Rightarrow> None
          | Some (accepted1, d1, it1, s1) \<Rightarrow> Some (1 / 2, d1, it1, s1, [], []))
      \<and> new_step_size (ms_iterand (step_entry (stub_solver None []) (\<lambda>t y. [[0]]) (1 / 2) d0 it0 s0))
          = 1 / 2 - time it0
      \<and> should_update_step_size
          (ms_iterand (step_entry (stub_solver None []) (\<lambda>t y. [[0]]) (1 / 2) d0 it0 s0))
      \<and> step_size (ms_state (maybe_step (stub_util True) (stub_solver None [])
            (step_entry (stub_solver None []) (\<lambda>t y. [[0]]) (1 / 2) d0 it0 s0))) = 1 / 2)
   \<and> (\<not> new_step_size it0 > 2 - time it0
      \<and> new_step_size (ms_iterand (step_entry (stub_solver None []) (\<lambda>t y. [[0]]) 2 d0 it0 s0))
          = new_step_size it0
      \<and> should_update_step_size
          (ms_iterand (step_entry (stub_solver None []) (\<lambda>t y. [[0]]) 2 d0 it0 s0))
          = should_update_step_size it0
      \<and> step_size (ms_state (maybe_step (stub_util True) (stub_solver None [])
            (step_entry (stub_solver None []) (\<lambda>t y. [[0]]) 2 d0 it0 s0))) = step_size s0)"
proof -
  have h: "new_step_size it0 > 1 / 2 - time it0" "\<not> new_step_size it0 > 2 - time it0"
    "\<not> should_update_step_size it0"
    by (simp_all add: it0_def)
  note a = step_clamps_pending_step_size [where U = "stub_util True" and it = it0
      and next_time = "1 / 2" and self = "stub_solver None []" and jacobian_fn = "\<lambda>t y. [[0]]"
      and d = d0 and s = s0 and state_vec = "[]" and ts = "[]"]
  note b = step_clamps_pending_step_size [where U = "stub_util True" and it = it0
      and next_time = 2 and self = "stub_solver None []" and jacobian_fn = "\<lambda>t y. [[0]]"
      and d = d0 and s = s0 and state_vec = "[]" and ts = "[]"]
  from a b h show ?thesis by (simp add: it0_def)
qed

text \<open>Claim C7. With \<open>evaluate_jacobian_lazily\<close> on and the Jacobian marked up to date,
  an invocation of \<^verbatim>\<open>step\<close> leaves the stored Jacobian and the counter
  \<open>num_jacobian_evaluations\<close> unchanged; in every other case the Jacobian is evaluated
  at the current time and the current state estimate (row 0 of the history), replaces
  the stored matrix, and the counter grows by exactly one. This holds of the state with
  which \<^verbatim>\<open>step\<close> enters its loop of attempts and of whatever \<^verbatim>\<open>step\<close> returns, the
  attempts changing neither; and under a budget of steps not yet exceeded \<^verbatim>\<open>step\<close>
  does return.\<close>

theorem step_jacobian_lazily:
  "(evaluate_jacobian_lazily self \<and> jacobian_is_up_to_date it \<longrightarrow>
      jacobian_mat (ms_iterand (step_entry self jacobian_fn next_time d it s)) = jacobian_mat it
      \<and> num_jacobian_evaluations (ms_diagnostics (step_entry self jacobian_fn next_time d it s))
          = num_jacobian_evaluations d)
   \<and> (\<not> (evaluate_jacobian_lazily self \<and> jacobian_is_up_to_date it) \<longrightarrow>
      jacobian_mat (ms_iterand (step_entry self jacobian_fn next_time d it s))
        = jacobian_fn (time it) (jax_index (backward_differences s) 0)
      \<and> num_jacobian_evaluations (ms_diagnostics (step_entry self jacobian_fn next_time d it s))
          = num_jacobian_evaluations d + 1)
   \<and> (\<forall>next_time' d' it' s' state_vec' ts'.
        step U self jacobian_fn (next_time, d, it, s, state_vec, ts)
          = Some (next_time', d', it', s', state_vec', ts') \<longrightarrow>
        (evaluate_jacobian_lazily self \<and> jacobian_is_up_to_date it \<longrightarrow>
           jacobian_mat it' = jacobian_mat it
           \<and> num_jacobian_evaluations d' = num_jacobian_evaluations d)
        \<and> (\<not> (evaluate_jacobian_lazily self \<and> jacobian_is_up_to_date it) \<longrightarrow>
           jacobian_mat it' = jacobian_fn (time it) (jax_index (backward_differences s) 0)
           \<and> num_jacobian_evaluations d' = num_jacobian_evaluations d + 1))
   \<and> (max_num_steps self = Some m \<and> num_steps it \<le> m \<longrightarrow>
        (\<exists>d' it' s'. step U self jacobian_fn (next_time, d, it, s, state_vec, ts)
                      = Some (next_time, d', it', s', state_vec, ts)))"
proof -
  let ?e = "step_entry self jacobian_fn next_time d it s"
  let ?J = "if evaluate_jacobian_lazily self \<and> jacobian_is_up_to_date it then jacobian_mat it
            else jacobian_fn (time it) (jax_index (backward_differences s) 0)"
  let ?n = "if evaluate_jacobian_lazily self \<and> jacobian_is_up_to_date it
            then num_jacobian_evaluations d else num_jacobian_evaluations d + 1"
  have e: "jacobian_mat (ms_iterand ?e) = ?J"
    "num_jacobian_evaluations (ms_diagnostics ?e) = ?n"
    by (simp_all add: step_entry_def step_clamp_def step_jacobian_def ms_iterand_def
        ms_diagnostics_def np_where_def Let_def)
  have r: "jacobian_mat it' = ?J \<and> num_jacobian_evaluations d' = ?n"
    if "step U self jacobian_fn (next_time, d, it, s, state_vec, ts)
          = Some (next_time', d', it', s', state_vec', ts')"
    for next_time' d' it' s' state_vec' ts'
  proof -
    from that obtain st' where l: "maybe_step_loop U self ?e = Some st'"
      and st': "d' = ms_diagnostics st'" "it' = ms_iterand st'"
      by (auto simp: step_enters_loop)
    let ?Q = "\<lambda>x. jacobian_mat (ms_iterand x) = ?J
                \<and> num_jacobian_evaluations (ms_diagnostics x) = ?n"
    have keep: "?Q (maybe_step U self x)" if q: "?Q x" for x
    proof -
      obtain a b c e where x: "x = (a, b, c, e)" by (cases x) auto
      have "jacobian_mat (ms_iterand (maybe_step U self x)) = jacobian_mat (ms_iterand x)"
        unfolding x maybe_step_fields by (simp add: ms_iterand_def)
      moreover have "num_jacobian_evaluations (ms_diagnostics (maybe_step U self x))
          = num_jacobian_evaluations (ms_diagnostics x)"
        unfolding x maybe_step_fields by (simp add: ms_diagnostics_def)
      ultimately show ?thesis using q by simp
    qed
    from maybe_step_loop_invariant [where Q = ?Q, OF l _ keep] e st'
    show ?thesis by simp
  qed
  have t: "\<exists>d' it' s'. step U self jacobian_fn (next_time, d, it, s, state_vec, ts)
                      = Some (next_time, d', it', s', state_vec, ts)"
    if "max_num_steps self = Some m \<and> num_steps it \<le> m"
  proof -
    from that have m: "max_num_steps self = Some m" and le: "num_steps it \<le> m" by simp_all
    from le have "within_budget m (ms_diagnostics ?e) (ms_iterand ?e)"
      by (simp add: within_budget_def step_entry_fields)
    from maybe_step_loop_returns [OF m this]
    obtain st' where "maybe_step_loop U self ?e = Some st'" ..
    then show ?thesis by (simp add: step_enters_loop)
  qed
  from e have a: "evaluate_jacobian_lazily self \<and> jacobian_is_up_to_date it \<longrightarrow>
      jacobian_mat (ms_iterand ?e) = jacobian_mat it
      \<and> num_jacobian_evaluations (ms_diagnostics ?e) = num_jacobian_evaluations d"
    and b: "\<not> (evaluate_jacobian_lazily self \<and> jacobian_is_up_to_date it) \<longrightarrow>
      jacobian_mat (ms_iterand ?e) = jacobian_fn (time it) (jax_index (backward_differences s) 0)
      \<and> num_jacobian_evaluations (ms_diagnostics ?e) = num_jacobian_evaluations d + 1"
    by simp_all
  have c: "\<forall>next_time' d' it' s' state_vec' ts'.
        step U self jacobian_fn (next_time, d, it, s, state_vec, ts)
          = Some (next_time', d', it', s', state_vec', ts') \<longrightarrow>
        (evaluate_jacobian_lazily self \<and> jacobian_is_up_to_date it \<longrightarrow>
           jacobian_mat it' = jacobian_mat it
           \<and> num_jacobian_evaluations d' = num_jacobian_evaluations d)
        \<and> (\<not> (evaluate_jacobian_lazily self \<and> jacobian_is_up_to_date it) \<longrightarrow>
           jacobian_mat it' = jacobian_fn (time it) (jax_index (backward_differences s) 0)
           \<and> num_jacobian_evaluations d' = num_jacobian_evaluations d + 1)"
    using r by (intro allI impI) (auto split: if_splits)
  from a b c t show ?thesis by (intro conjI impI) blast+
qed

theorem step_jacobian_lazily_witness:
  "(evaluate_jacobian_lazily ((stub_solver (Some 1) [])\<lparr>evaluate_jacobian_lazily := True\<rparr>)
      \<and> jacobian_is_up_to_date (it0\<lparr>jacobian_is_up_to_date := True\<rparr>)
      \<and> max_num_steps ((stub_solver (Some 1) [])\<lparr>evaluate_jacobian_lazily := True\<rparr>) = Some 1
      \<and> num_steps (it0\<lparr>jacobian_is_up_to_date := True\<rparr>) \<le> 1
      \<and> (\<exists>d' it' s'.
           step (stub_util True) ((stub_solver (Some 1) [])\<lparr>evaluate_jacobian_lazily := True\<rparr>)
             (\<lambda>t y. [[t + 7]]) (2, d0, it0\<lparr>jacobian_is_up_to_date := True\<rparr>, s0, [], [])
             = Some (2, d', it', s', [], [])
           \<and> jacobian_mat it' = [[0]] \<and> num_jacobian_evaluations d' = 0))
   \<and> (\<not> (evaluate_jacobian_lazily (stub_solver (Some 1) []) \<and> jacobian_is_up_to_date it0)
      \<and> max_num_steps (stub_solver (Some 1) []) = Some 1 \<and> num_steps it0 \<le> 1
      \<and> (\<exists>d' it' s'.
           step (stub_util True) (stub_solver (Some 1) []) (\<lambda>t y. [[t + 7]])
             (2, d0, it0, s0, [], []) = Some (2, d', it', s', [], [])
           \<and> jacobian_mat it' = [[7]] \<and> num_jacobian_evaluations d' = 1))"
proof -
  let ?L = "(stub_solver (Some 1) [])\<lparr>evaluate_jacobian_lazily := True\<rparr>"
  let ?S = "stub_solver (Some 1) []"
  let ?itL = "it0\<lparr>jacobian_is_up_to_date := True\<rparr>"
  let ?jf = "\<lambda>(t::real) (y::vec). [[t + 7]]"
  have hL: "evaluate_jacobian_lazily ?L \<and> jacobian_is_up_to_date ?itL"
    "max_num_steps ?L = Some 1 \<and> num_steps ?itL \<le> 1"
    by (simp_all add: stub_solver_def it0_def)
  have hS: "\<not> (evaluate_jacobian_lazily ?S \<and> jacobian_is_up_to_date it0)"
    "max_num_steps ?S = Some 1 \<and> num_steps it0 \<le> 1"
    by (simp_all add: stub_solver_def it0_def)
  note a = step_jacobian_lazily [where U = "stub_util True" and self = ?L and it = ?itL
      and jacobian_fn = ?jf and next_time = 2 and d = d0 and s = s0 and state_vec = "[]"
      and ts = "[]" and m = 1]
  note b = step_jacobian_lazily [where U = "stub_util True" and self = ?S and it = it0
      and jacobian_fn = ?jf and next_time = 2 and d = d0 and s = s0 and state_vec = "[]"
      and ts = "[]" and m = 1]
  from a hL obtain d1 it1 s1 where
    r1: "step (stub_util True) ?L ?jf (2, d0, ?itL, s0, [], []) = Some (2, d1, it1, s1, [], [])"
    by blast
  from a hL r1 have v1: "jacobian_mat it1 = jacobian_mat ?itL"
    "num_jacobian_evaluations d1 = num_jacobian_evaluations d0" by blast+
  from b hS obtain d2 it2 s2 where
    r2: "step (stub_util True) ?S ?jf (2, d0, it0, s0, [], []) = Some (2, d2, it2, s2, [], [])"
    by blast
  from b hS r2 have v2: "jacobian_mat it2 = ?jf (time it0) (jax_index (backward_differences s0) 0)"
    "num_jacobian_evaluations d2 = num_jacobian_evaluations d0 + 1" by blast+
  from v1 have w1: "jacobian_mat it1 = [[0]]" "num_jacobian_evaluations d1 = 0"
    by (simp_all add: it0_def d0_def)
  from v2 have w2: "jacobian_mat it2 = [[7]]" "num_jacobian_evaluations d2 = 1"
    by (simp_all add: it0_def d0_def)
  from r1 w1 have e1: "\<exists>d' it' s'.
           step (stub_util True) ?L ?jf (2, d0, ?itL, s0, [], []) = Some (2, d', it', s', [], [])
           \<and> jacobian_mat it' = [[0]] \<and> num_jacobian_evaluations d' = 0" by blast
  from r2 w2 have e2: "\<exists>d' it' s'.
           step (stub_util True) ?S ?jf (2, d0, it0, s0, [], []) = Some (2, d', it', s', [], [])
           \<and> jacobian_mat it' = [[7]] \<and> num_jacobian_evaluations d' = 1" by blast
  from hL hS e1 e2 show ?thesis by (intro conjI) simp_all
qed

subsection \<open>\_get\_coefficients\<close>

text \<open>Claim C8. For a base vector \<open>bdf_coefficients[0..5]\<close> with
  \<open>bdf_coefficients[k] \<noteq> 1\<close>, and with the order indices \<open>0..5\<close>,
  \<open>newton_coefficients[k] = 1 / ((1 - bdf_coefficients[k]) * reciprocal_sums[k])\<close> and
  \<open>error_coefficients[k] = bdf_coefficients[k] * reciprocal_sums[k] + 1 / (k + 1)\<close>
  at each index \<open>k\<close>. The function reads nothing but its arguments and the constants.\<close>

theorem get_coefficients_entries:
  assumes "length bdf = 6" and "length (RECIPROCAL_SUMS U) = 6"
    and "ORDERS U = [0, 1, 2, 3, 4, 5]" and "k < 6" and "bdf ! k \<noteq> 1"
  shows "fst (get_coefficients U bdf) ! k = 1 / ((1 - bdf ! k) * RECIPROCAL_SUMS U ! k)
     \<and> snd (get_coefficients U bdf) ! k = bdf ! k * RECIPROCAL_SUMS U ! k + 1 / (real k + 1)
     \<and> length (fst (get_coefficients U bdf)) = 6 \<and> length (snd (get_coefficients U bdf)) = 6"
proof -
  have k: "k \<in> {0, 1, 2, 3, 4, 5}" using assms(4) by auto
  have "map (\<lambda>j. 1 / real_of_int (j + 1)) (ORDERS U) ! k = 1 / (real k + 1)"
    using k assms(3) by auto
  then show ?thesis
    using assms by (simp add: get_coefficients_def Let_def)
qed

theorem get_coefficients_entries_witness:
  "length (bdf_coefficients (stub_solver None [])) = 6
   \<and> length (RECIPROCAL_SUMS (stub_util True)) = 6
   \<and> ORDERS (stub_util True) = [0, 1, 2, 3, 4, 5] \<and> (2::nat) < 6
   \<and> bdf_coefficients (stub_solver None []) ! 2 \<noteq> 1
   \<and> fst (get_coefficients (stub_util True) (bdf_coefficients (stub_solver None []))) ! 2 = 3 / 5
   \<and> snd (get_coefficients (stub_util True) (bdf_coefficients (stub_solver None []))) ! 2 = 1 / 6"
  using get_coefficients_entries [where U = "stub_util True"
      and bdf = "bdf_coefficients (stub_solver None [])" and k = 2]
  by (simp add: stub_util_def stub_solver_def)

subsection \<open>maybe\_step\<close>

text \<open>Claim C10. An attempt that is not accepted returns the time of the iterand and
  the order of the internal state as it received them.\<close>

theorem rejected_attempt_keeps_time_and_order:
  "\<not> ms_accepted (maybe_step U self (acc, d, it, s)) \<Longrightarrow>
     time (ms_iterand (maybe_step U self (acc, d, it, s))) = time it
     \<and> order (ms_state (maybe_step U self (acc, d, it, s))) = order s"
  by (simp add: maybe_step_accepted maybe_step_iterand maybe_step_state Let_def at_time_eq
      order_scan_eq should_update_order_and_step_size_def)

theorem rejected_attempt_keeps_time_and_order_witness:
  "\<not> ms_accepted (maybe_step (stub_util False) (stub_solver None []) (False, d0, it0, s0))
   \<and> time (ms_iterand (maybe_step (stub_util False) (stub_solver None []) (False, d0, it0, s0)))
       = time it0
   \<and> order (ms_state (maybe_step (stub_util False) (stub_solver None []) (False, d0, it0, s0)))
       = order s0"
proof -
  have "\<not> at_newton_converged (maybe_step_attempt (stub_util False) (stub_solver None []) d0 it0 s0)"
    by (simp add: maybe_step_attempt_def Let_def split_def stub_util_def)
  then have "\<not> ms_accepted (maybe_step (stub_util False) (stub_solver None []) (False, d0, it0, s0))"
    by (simp add: maybe_step_accepted at_accepted_eq at_error_ratio_nan)
  then show ?thesis
    using rejected_attempt_keeps_time_and_order [where U = "stub_util False"
        and self = "stub_solver None []" and acc = False and d = d0 and it = it0 and s = s0]
    by simp
qed


text \<open>Claim C5. When Newton's iteration does not converge: with the Jacobian up to date,
  the new step size is the step size of the attempt times \<open>newton_step_size_factor\<close>, a
  step-size update is pending and the order is unchanged; with a stale Jacobian, the
  Jacobian is marked for re-evaluation and the pending step size is the step size of the
  attempt, with no update pending. The step size of the attempt is the one returned in
  the internal state: the pending one if an update was due on entry, the former one
  otherwise.\<close>

theorem newton_failure_branches:
  assumes "\<not> at_newton_converged (maybe_step_attempt U self d it s)"
  shows "(jacobian_is_up_to_date it \<longrightarrow>
            new_step_size (ms_iterand (maybe_step U self (acc, d, it, s)))
              = step_size (ms_state (maybe_step U self (acc, d, it, s)))
                  * newton_step_size_factor self
            \<and> should_update_step_size (ms_iterand (maybe_step U self (acc, d, it, s)))
            \<and> order (ms_state (maybe_step U self (acc, d, it, s))) = order s)
       \<and> (\<not> jacobian_is_up_to_date it \<longrightarrow>
            should_update_jacobian (ms_iterand (maybe_step U self (acc, d, it, s)))
            \<and> new_step_size (ms_iterand (maybe_step U self (acc, d, it, s)))
                = step_size (ms_state (maybe_step U self (acc, d, it, s)))
            \<and> \<not> should_update_step_size (ms_iterand (maybe_step U self (acc, d, it, s))))
       \<and> step_size (ms_state (maybe_step U self (acc, d, it, s)))
           = (if should_update_step_size it then new_step_size it else step_size s)"
proof -
  let ?a = "maybe_step_attempt U self d it s"
  have nan: "at_error_ratio ?a = None" using assms by (rule at_error_ratio_nan)
  have rej: "\<not> at_accepted ?a" by (simp add: at_accepted_eq nan)
  have no_adapt: "\<not> should_update_order_and_step_size s ?a"
    by (simp add: should_update_order_and_step_size_def rej)
  show ?thesis
    using assms rej no_adapt
    by (simp add: maybe_step_iterand maybe_step_state Let_def order_scan_eq
        at_new_step_size_eq at_should_update_step_size_eq at_should_update_jacobian_eq
        at_step_size_eq)
qed

theorem newton_failure_branches_witness:
  "\<not> at_newton_converged (maybe_step_attempt (stub_util False) (stub_solver None []) d0
        (it0\<lparr>jacobian_is_up_to_date := True\<rparr>) s0)
   \<and> jacobian_is_up_to_date (it0\<lparr>jacobian_is_up_to_date := True\<rparr>)
   \<and> new_step_size (ms_iterand (maybe_step (stub_util False) (stub_solver None [])
         (False, d0, it0\<lparr>jacobian_is_up_to_date := True\<rparr>, s0))) = 1 / 2
   \<and> \<not> at_newton_converged (maybe_step_attempt (stub_util False) (stub_solver None []) d0 it0 s0)
   \<and> \<not> jacobian_is_up_to_date it0
   \<and> should_update_jacobian (ms_iterand (maybe_step (stub_util False) (stub_solver None [])
         (False, d0, it0, s0)))
   \<and> new_step_size (ms_iterand (maybe_step (stub_util False) (stub_solver None [])
         (False, d0, it0, s0))) = 1"
  using newton_failure_branches [where U = "stub_util False" and self = "stub_solver None []"
      and d = d0 and it = "it0\<lparr>jacobian_is_up_to_date := True\<rparr>" and s = s0 and acc = False]
    newton_failure_branches [where U = "stub_util False" and self = "stub_solver None []"
      and d = d0 and it = it0 and s = s0 and acc = False]
  by (simp add: stub_newton_converged it0_def s0_def stub_solver_def)

text \<open>Claim C2, as stated: an invocation with \<open>num_steps = max_num_steps\<close> sets
  \<open>status = -1\<close> and returns at once, with no interpolation, factorization or Newton
  iteration and no counter incremented. It does not hold: line 149 only computes
  \<open>status\<close>, and lines 150-278 run as in any other attempt. With a budget of 0
  steps the first attempt has \<open>num_steps = max_num_steps\<close>; it factorizes, runs Newton's
  iteration, counts itself, is accepted and advances the time.\<close>

theorem exhausted_budget_counterexample:
  "Some (num_steps it0) = max_num_steps (stub_solver (Some 0) [1 / 2, 1 / 2, 1 / 2])
   \<and> status (ms_diagnostics (maybe_step (stub_util True)
         (stub_solver (Some 0) [1 / 2, 1 / 2, 1 / 2]) (False, d0, it0, s0))) = - 1
   \<and> num_steps (ms_iterand (maybe_step (stub_util True)
         (stub_solver (Some 0) [1 / 2, 1 / 2, 1 / 2]) (False, d0, it0, s0))) = 1
   \<and> num_steps it0 = 0
   \<and> num_matrix_factorizations (ms_diagnostics (maybe_step (stub_util True)
         (stub_solver (Some 0) [1 / 2, 1 / 2, 1 / 2]) (False, d0, it0, s0))) = 1
   \<and> num_matrix_factorizations d0 = 0
   \<and> num_ode_fn_evaluations (ms_diagnostics (maybe_step (stub_util True)
         (stub_solver (Some 0) [1 / 2, 1 / 2, 1 / 2]) (False, d0, it0, s0))) = 1
   \<and> num_ode_fn_evaluations d0 = 0
   \<and> ms_accepted (maybe_step (stub_util True)
         (stub_solver (Some 0) [1 / 2, 1 / 2, 1 / 2]) (False, d0, it0, s0))
   \<and> time (ms_iterand (maybe_step (stub_util True)
         (stub_solver (Some 0) [1 / 2, 1 / 2, 1 / 2]) (False, d0, it0, s0))) = 1
   \<and> time it0 = 0"
  by (simp add: maybe_step_diagnostics maybe_step_iterand maybe_step_accepted Let_def
      at_status_eq at_num_steps_eq at_num_matrix_factorizations_eq stub_num_ode_fn_evaluations
      at_accepted_eq stub_error_ratio at_time_eq at_step_size_eq
      it0_def d0_def s0_def stub_solver_def jax_index_def)

text \<open>Claim C2, amended: an invocation with \<open>num_steps = max_num_steps\<close> returns
  \<open>status = -1\<close> and otherwise exactly what the same invocation returns under an
  unlimited budget: the attempt is carried out in full, \<open>num_steps\<close> and
  \<open>num_matrix_factorizations\<close> grow by one, and the loop of attempts stops after
  it.\<close>

theorem exhausted_budget_attempt_runs:
  assumes "Some (num_steps it) = max_num_steps self"
  shows "maybe_step U self (acc, d, it, s) =
           (ms_accepted (maybe_step U (self\<lparr>max_num_steps := None\<rparr>) (acc, d, it, s)),
            (ms_diagnostics (maybe_step U (self\<lparr>max_num_steps := None\<rparr>) (acc, d, it, s)))
              \<lparr>status := - 1\<rparr>,
            ms_iterand (maybe_step U (self\<lparr>max_num_steps := None\<rparr>) (acc, d, it, s)),
            ms_state (maybe_step U (self\<lparr>max_num_steps := None\<rparr>) (acc, d, it, s)))
       \<and> status (ms_diagnostics (maybe_step U self (acc, d, it, s))) = - 1
       \<and> num_steps (ms_iterand (maybe_step U self (acc, d, it, s))) = num_steps it + 1
       \<and> num_matrix_factorizations (ms_diagnostics (maybe_step U self (acc, d, it, s)))
           = num_matrix_factorizations d + 1
       \<and> \<not> maybe_step_cond (maybe_step U self (acc, d, it, s))"
proof -
  let ?self' = "self\<lparr>max_num_steps := None\<rparr>"
  have self: "self = ?self'\<lparr>max_num_steps := Some (num_steps it)\<rparr>"
    using assms by simp
  have a: "maybe_step_attempt U self d it s =
             (maybe_step_attempt U ?self' d it s)\<lparr>at_status := - 1\<rparr>"
    using attempt_budget_only_status [where U = U and self = ?self' and m = "Some (num_steps it)"
        and d = d and it = it and s = s] self by simp
  have st: "status (ms_diagnostics (maybe_step U self (acc, d, it, s))) = - 1"
    using assms by (simp add: maybe_step_diagnostics Let_def at_status_eq)
  have eq: "maybe_step U self (acc, d, it, s) =
           (ms_accepted (maybe_step U ?self' (acc, d, it, s)),
            (ms_diagnostics (maybe_step U ?self' (acc, d, it, s)))\<lparr>status := - 1\<rparr>,
            ms_iterand (maybe_step U ?self' (acc, d, it, s)),
            ms_state (maybe_step U ?self' (acc, d, it, s)))"
    apply (subst maybe_step_tuple)
    apply (simp add: maybe_step_accepted maybe_step_diagnostics maybe_step_iterand
        maybe_step_state Let_def a order_scan_eq should_update_order_and_step_size_def
        proposed_order_def proposed_error_ratio_def)
    done
  have cond: "\<not> maybe_step_cond (maybe_step U self (acc, d, it, s))"
    using st by (simp add: maybe_step_cond_def ms_diagnostics_def split_def)
  have ns: "num_steps (ms_iterand (maybe_step U self (acc, d, it, s))) = num_steps it + 1"
    by (simp add: maybe_step_iterand Let_def at_num_steps_eq)
  have nmf: "num_matrix_factorizations (ms_diagnostics (maybe_step U self (acc, d, it, s)))
           = num_matrix_factorizations d + 1"
    by (simp add: maybe_step_diagnostics Let_def at_num_matrix_factorizations_eq)
  from eq st ns nmf cond show ?thesis by (intro conjI)
qed

theorem exhausted_budget_attempt_runs_witness:
  "Some (num_steps it0) = max_num_steps (stub_solver (Some 0) [1 / 2, 1 / 2, 1 / 2])
   \<and> status (ms_diagnostics (maybe_step (stub_util True)
         (stub_solver (Some 0) [1 / 2, 1 / 2, 1 / 2]) (False, d0, it0, s0))) = - 1
   \<and> num_steps (ms_iterand (maybe_step (stub_util True)
         (stub_solver (Some 0) [1 / 2, 1 / 2, 1 / 2]) (False, d0, it0, s0))) = num_steps it0 + 1
   \<and> num_matrix_factorizations (ms_diagnostics (maybe_step (stub_util True)
         (stub_solver (Some 0) [1 / 2, 1 / 2, 1 / 2]) (False, d0, it0, s0)))
       = num_matrix_factorizations d0 + 1
   \<and> \<not> maybe_step_cond (maybe_step (stub_util True)
         (stub_solver (Some 0) [1 / 2, 1 / 2, 1 / 2]) (False, d0, it0, s0))"
proof -
  have h: "Some (num_steps it0) = max_num_steps (stub_solver (Some 0) [1 / 2, 1 / 2, 1 / 2])"
    by (simp add: it0_def stub_solver_def)
  from exhausted_budget_attempt_runs [OF h, where U = "stub_util True" and d = d0
      and s = s0 and acc = False] h
  show ?thesis by blast
qed

text \<open>Claim C1. The order is adapted only on an accepted attempt with
  \<open>num_steps_same_size > order + 1\<close> (the counter as returned, the order as
  received). The scan then looks at the offsets \<open>-1\<close> and \<open>+1\<close> in this order, each
  proposed order clamped to \<open>[1, max_order]\<close>, and adopts a proposed order and its
  error ratio only if that ratio is strictly below the best one so far: a tie keeps the
  incumbent, and \<open>+1\<close> replaces an adopted \<open>-1\<close> only if strictly lower still. The
  returned order is the result of this scan.\<close>

theorem order_adaptation_scan:
  "let r = maybe_step U self (acc, d, it, s);
       a = maybe_step_attempt U self d it s;
       runs = (ms_accepted r \<and> num_steps_same_size (ms_iterand r) > order s + 1);
       lo = min (max (order s + - 1) 1) (max_order self);
       hi = min (max (order s + 1) 1) (max_order self);
       e0 = at_error_ratio a;
       e_lo = proposed_error_ratio U self (backward_differences (ms_state r)) (at_tol a) lo;
       e_hi = proposed_error_ratio U self (backward_differences (ms_state r)) (at_tol a) hi
   in (\<not> runs \<longrightarrow> order (ms_state r) = order s)
      \<and> (runs \<longrightarrow> order (ms_state r) =
            (if nan_less e_lo e0 then (if nan_less e_hi e_lo then hi else lo)
             else (if nan_less e_hi e0 then hi else order s)))"
  by (simp add: Let_def maybe_step_accepted maybe_step_iterand maybe_step_state order_scan_eq
      should_update_order_and_step_size_def proposed_order_def np_clip_def)

theorem order_adaptation_scan_witness:
  "(ms_accepted (maybe_step (stub_util True) (stub_solver None [1, 1 / 4, 1 / 2, 1 / 8, 1, 1])
        (False, d0, it0\<lparr>num_steps_same_size := 3\<rparr>, s0\<lparr>order := 2\<rparr>))
    \<and> num_steps_same_size (ms_iterand (maybe_step (stub_util True)
        (stub_solver None [1, 1 / 4, 1 / 2, 1 / 8, 1, 1])
        (False, d0, it0\<lparr>num_steps_same_size := 3\<rparr>, s0\<lparr>order := 2\<rparr>))) > order (s0\<lparr>order := 2\<rparr>) + 1
    \<and> order (ms_state (maybe_step (stub_util True)
        (stub_solver None [1, 1 / 4, 1 / 2, 1 / 8, 1, 1])
        (False, d0, it0\<lparr>num_steps_same_size := 3\<rparr>, s0\<lparr>order := 2\<rparr>))) = 3)
   \<and> (\<not> (ms_accepted (maybe_step (stub_util True)
          (stub_solver None [1, 1 / 4, 1 / 2, 1 / 8, 1, 1]) (False, d0, it0, s0\<lparr>order := 2\<rparr>))
        \<and> num_steps_same_size (ms_iterand (maybe_step (stub_util True)
          (stub_solver None [1, 1 / 4, 1 / 2, 1 / 8, 1, 1]) (False, d0, it0, s0\<lparr>order := 2\<rparr>)))
            > order (s0\<lparr>order := 2\<rparr>) + 1)
    \<and> order (ms_state (maybe_step (stub_util True)
        (stub_solver None [1, 1 / 4, 1 / 2, 1 / 8, 1, 1]) (False, d0, it0, s0\<lparr>order := 2\<rparr>))) = 2)"
proof -
  let ?self = "stub_solver None [1, 1 / 4, 1 / 2, 1 / 8, 1, 1]"
  let ?s = "s0\<lparr>order := 2\<rparr>"
  let ?it = "it0\<lparr>num_steps_same_size := 3\<rparr>"
  have e: "error_coefficients ?self = [1, 1 / 4, 1 / 2, 1 / 8, 1, 1]" "max_order ?self = 5"
    by (simp_all add: stub_solver_def)
  have o: "order ?s = 2" by simp
  have e0: "at_error_ratio (maybe_step_attempt (stub_util True) ?self d ?it ?s) = Some (1 / 2)"
    "at_error_ratio (maybe_step_attempt (stub_util True) ?self d it0 ?s) = Some (1 / 2)" for d
    unfolding stub_error_ratio e o by (simp_all add: jax_index_def)
  have lo: "min (max (2 + - 1) 1) (max_order ?self) = 1"
    and hi: "min (max (2 + 1) 1) (max_order ?self) = 3"
    unfolding e by simp_all
  have e_lo: "proposed_error_ratio (stub_util True) ?self bd tol 1 = Some (1 / 4)"
    and e_hi: "proposed_error_ratio (stub_util True) ?self bd tol 3 = Some (1 / 8)" for bd tol
    unfolding stub_proposed_error_ratio e by (simp_all add: jax_index_def)
  have i: "should_update_step_size ?it = False" "num_steps_same_size ?it = 3"
    "should_update_step_size it0 = False" "num_steps_same_size it0 = 0"
    by (simp_all add: it0_def)
  have acc: "ms_accepted (maybe_step (stub_util True) ?self (False, d0, ?it, ?s))"
    "ms_accepted (maybe_step (stub_util True) ?self (False, d0, it0, ?s))"
    by (simp_all add: maybe_step_accepted at_accepted_eq e0)
  have n: "num_steps_same_size (ms_iterand (maybe_step (stub_util True) ?self (False, d0, ?it, ?s))) = 4"
    "num_steps_same_size (ms_iterand (maybe_step (stub_util True) ?self (False, d0, it0, ?s))) = 1"
    by (simp_all add: maybe_step_fields at_num_steps_same_size_eq at_accepted_eq e0 i)
  show ?thesis
    using order_adaptation_scan [where U = "stub_util True" and self = ?self and acc = False
        and d = d0 and it = ?it and s = ?s]
      order_adaptation_scan [where U = "stub_util True" and self = ?self and acc = False
        and d = d0 and it = it0 and s = ?s]
    unfolding Let_def o lo hi e_lo e_hi e0 n
    using acc by simp
qed


subsection \<open>The count of attempts\<close>

text \<open>Claim C9, as stated: every invocation of \<^verbatim>\<open>maybe_step\<close> adds exactly one to
  \<open>num_steps\<close>, whatever its outcome, and so \<open>max_num_steps\<close> bounds the number of
  attempts. The first half holds; the bound does not: the invocation that finds
  \<open>num_steps = max_num_steps\<close> is itself carried out and counted. Under a budget of one
  step, with output times 3 and 5 and step size 1, the run makes two attempts.\<close>

theorem attempts_exceed_budget_counterexample:
  "max_num_steps (stub_solver (Some 1) [1 / 2, 1 / 2, 1 / 2]) = Some 1
   \<and> advance_loop (stub_util True) (stub_solver (Some 1) [1 / 2, 1 / 2, 1 / 2])
       (\<lambda>t y. [[0]]) [3, 5] (initial_advance_state s0 0 1 2) =
     Some (1,
       \<lparr>num_jacobian_evaluations = 2, num_matrix_factorizations = 2,
        num_ode_fn_evaluations = 2, status = - 1\<rparr>,
       \<lparr>jacobian_mat = [[0]], jacobian_is_up_to_date = False, new_step_size = 1,
        num_steps = 2, num_steps_same_size = 2, should_update_jacobian = False,
        should_update_step_size = False, time = 2, unitary = [[0]], upper = [[0]]\<rparr>,
       s0, [[1], [0]], [3, 0])
   \<and> num_steps it0 = 0
   \<and> \<not> ((2 :: int) \<le> 1)"
proof -
  have "advance_loop (stub_util True) (stub_solver (Some 1) [1 / 2, 1 / 2, 1 / 2])
       (\<lambda>t y. [[0]]) [3, 5] (initial_advance_state s0 0 1 2) =
     Some (1,
       \<lparr>num_jacobian_evaluations = 2, num_matrix_factorizations = 2,
        num_ode_fn_evaluations = 2, status = - 1\<rparr>,
       \<lparr>jacobian_mat = [[0]], jacobian_is_up_to_date = False, new_step_size = 1,
        num_steps = 2, num_steps_same_size = 2, should_update_jacobian = False,
        should_update_step_size = False, time = 2, unitary = [[0]], upper = [[0]]\<rparr>,
       s0, [[1], [0]], [3, 0])"
    by (rule stub_run) (simp_all add: stub_solver_def jax_index_def)
  then show ?thesis by (simp add: stub_solver_def it0_def)
qed

text \<open>Claim C9, amended. Every invocation of \<^verbatim>\<open>maybe_step\<close> adds exactly one to
  \<open>num_steps\<close>, whatever its outcome (accepted, rejected for its error, Newton's
  iteration not converged). So the budget \<open>max_num_steps\<close> is spent by attempts, not by
  accepted steps: a run of \<^verbatim>\<open>_solve\<close> under a budget of \<open>m\<close> steps returns, having made
  at most \<open>m\<close> attempts if its status is 0, and otherwise at most \<open>m + 1\<close>, the last one
  being the attempt on which the status became \<open>-1\<close>.\<close>

theorem every_attempt_counts:
  "num_steps (ms_iterand (maybe_step U self (acc, d, it, s))) = num_steps it + 1
   \<and> (max_num_steps self = Some m \<and> 0 \<le> m \<longrightarrow>
        (\<exists>n d' it' s' state_vec ts.
           advance_loop U self jacobian_fn solution_times
             (initial_advance_state s1 initial_time k N)
             = Some (n, d', it', s', state_vec, ts)
           \<and> num_steps it' \<le> (if status d' = 0 then m else m + 1)))"
proof (intro conjI impI)
  show "num_steps (ms_iterand (maybe_step U self (acc, d, it, s))) = num_steps it + 1"
    by (simp add: maybe_step_fields)
next
  assume a: "max_num_steps self = Some m \<and> 0 \<le> m"
  then have m: "max_num_steps self = Some m" and m0: "0 \<le> m" by simp_all
  from advance_loop_budget [OF m initial_within_budget(2) [OF m0]]
  show "\<exists>n d' it' s' state_vec ts.
           advance_loop U self jacobian_fn solution_times
             (initial_advance_state s1 initial_time k N)
             = Some (n, d', it', s', state_vec, ts)
           \<and> num_steps it' \<le> (if status d' = 0 then m else m + 1)"
    unfolding initial_within_budget(1) [OF m0] within_budget_def by blast
qed

theorem every_attempt_counts_witness:
  "max_num_steps (stub_solver (Some 1) [1 / 2, 1 / 2, 1 / 2]) = Some 1 \<and> (0 :: int) \<le> 1
   \<and> num_steps (ms_iterand (maybe_step (stub_util False)
         (stub_solver (Some 1) [1 / 2, 1 / 2, 1 / 2]) (False, d0, it0, s0))) = num_steps it0 + 1
   \<and> (\<exists>n d' it' s' state_vec ts.
         advance_loop (stub_util False) (stub_solver (Some 1) [1 / 2, 1 / 2, 1 / 2])
           (\<lambda>t y. [[0]]) [3, 5] (initial_advance_state s0 0 1 2)
           = Some (n, d', it', s', state_vec, ts)
         \<and> num_steps it' \<le> (if status d' = 0 then 1 else 1 + 1))"
proof -
  have h: "max_num_steps (stub_solver (Some 1) [1 / 2, 1 / 2, 1 / 2]) = Some 1 \<and> (0 :: int) \<le> 1"
    by (simp add: stub_solver_def)
  from every_attempt_counts [where U = "stub_util False"
      and self = "stub_solver (Some 1) [1 / 2, 1 / 2, 1 / 2]" and m = 1 and acc = False
      and d = d0 and it = it0 and s = s0 and jacobian_fn = "\<lambda>t y. [[0]]"
      and solution_times = "[3, 5]" and ?s1.0 = s0 and initial_time = 0 and k = 1 and N = 2] h
  show ?thesis by blast
qed

subsection \<open>The step sizes\<close>

text \<open>Claim C3, as stated: the step size of every accepted step whose step size was
  updated lies in \<open>[min_step_size_factor, max_step_size_factor]\<close> times the previous
  step size, also when \<^verbatim>\<open>step\<close> clamps the pending step to land on the output time.
  It does not hold: with step size 1, current time 0 and output time 1/100, \<^verbatim>\<open>step\<close>
  cuts the pending step size to 1/100 and forces the update; the attempt runs with the
  step size 1/100 and is accepted, and 1/100 is below \<open>min_step_size_factor * 1 = 1/10\<close>.\<close>

theorem step_size_bounds_counterexample:
  "step (stub_util True) (stub_solver None [1 / 2, 1 / 2, 1 / 2]) (\<lambda>t y. [[0]])
     (1 / 100, d0, it0, s0, [], []) =
   Some (1 / 100,
     \<lparr>num_jacobian_evaluations = 1, num_matrix_factorizations = 1,
      num_ode_fn_evaluations = 1, status = 0\<rparr>,
     \<lparr>jacobian_mat = [[0]], jacobian_is_up_to_date = False, new_step_size = 1 / 100,
      num_steps = 1, num_steps_same_size = 1, should_update_jacobian = False,
      should_update_step_size = False, time = 1 / 100, unitary = [[0]], upper = [[0]]\<rparr>,
     \<lparr>backward_differences = [[1], [0], [0], [0], [0], [0], [0], [0]], order = 1,
      step_size = 1 / 100\<rparr>,
     [], [])
   \<and> step_size s0 = 1 \<and> time it0 = 0
   \<and> \<not> (min_step_size_factor (stub_solver None [1 / 2, 1 / 2, 1 / 2]) * step_size s0 \<le> 1 / 100)"
proof -
  let ?U = "stub_util True" and ?self = "stub_solver None [1 / 2, 1 / 2, 1 / 2]"
  let ?d1 = "\<lparr>num_jacobian_evaluations = 1, num_matrix_factorizations = 0,
      num_ode_fn_evaluations = 0, status = 0\<rparr>"
  let ?it1 = "\<lparr>jacobian_mat = [[0]], jacobian_is_up_to_date = False, new_step_size = 1 / 100,
      num_steps = 0, num_steps_same_size = 0, should_update_jacobian = True,
      should_update_step_size = True, time = 0, unitary = [[0]], upper = [[0]]\<rparr>"
  let ?r = "(True,
     \<lparr>num_jacobian_evaluations = 1, num_matrix_factorizations = 1,
      num_ode_fn_evaluations = 1, status = 0\<rparr>,
     \<lparr>jacobian_mat = [[0]], jacobian_is_up_to_date = False, new_step_size = 1 / 100,
      num_steps = 1, num_steps_same_size = 1, should_update_jacobian = False,
      should_update_step_size = False, time = 1 / 100, unitary = [[0]], upper = [[0]]\<rparr>,
     \<lparr>backward_differences = [[1], [0], [0], [0], [0], [0], [0], [0]], order = 1,
      step_size = 1 / 100\<rparr>)"
  have e: "step_entry ?self (\<lambda>t y. [[0]]) (1 / 100) d0 it0 s0 = (False, ?d1, ?it1, s0)"
    by (simp add: step_entry_def step_clamp_def step_jacobian_def np_where_def Let_def
        it0_def d0_def stub_solver_def)
  have m: "maybe_step ?U ?self (False, ?d1, ?it1, s0) = ?r"
    by (subst stub_accepted_step) (simp_all add: s0_def stub_solver_def jax_index_def)
  have l: "maybe_step_loop ?U ?self (False, ?d1, ?it1, s0) = Some ?r"
    apply (subst maybe_step_loop.simps)
    apply (simp add: maybe_step_cond_def m)
    apply (subst maybe_step_loop.simps)
    apply (simp add: maybe_step_cond_def)
    done
  show ?thesis
    by (simp add: step_enters_loop e l ms_diagnostics_def ms_iterand_def ms_state_def)
       (simp add: s0_def it0_def stub_solver_def)
qed

text \<open>Claim C3, amended. Let \<open>0 < min_step_size_factor \<le> max_step_size_factor\<close> and
  \<open>0 < newton_step_size_factor\<close>, and let the step size and the pending step size be
  positive. Then both are positive after every attempt, after the prologue of \<^verbatim>\<open>step\<close>
  when the output time is ahead, and in whatever state the loop of \<^verbatim>\<open>_solve\<close> returns.
  An attempt runs with the pending step size if an update was due and with the former
  step size otherwise. The pending step size it leaves is its own step size when no
  update is due; \<open>newton_step_size_factor\<close> times its step size after an iteration of
  Newton that did not converge; and otherwise, being computed by the step-size formula,
  lies in \<open>[min_step_size_factor, max_step_size_factor]\<close> times its step size. The
  prologue of \<^verbatim>\<open>step\<close> only lowers the pending step size, to at most the distance to
  the output time, with no lower bound relative to the previous step size.\<close>

theorem step_sizes_positive_and_bounded:
  assumes "positive_factors self" and "positive_step_sizes it s"
  shows "positive_step_sizes (ms_iterand (maybe_step U self (acc, d, it, s)))
           (ms_state (maybe_step U self (acc, d, it, s)))
     \<and> step_size (ms_state (maybe_step U self (acc, d, it, s)))
         = (if should_update_step_size it then new_step_size it else step_size s)
     \<and> (if \<not> should_update_step_size (ms_iterand (maybe_step U self (acc, d, it, s)))
         then new_step_size (ms_iterand (maybe_step U self (acc, d, it, s)))
                = step_size (ms_state (maybe_step U self (acc, d, it, s)))
         else if \<not> at_newton_converged (maybe_step_attempt U self d it s)
         then new_step_size (ms_iterand (maybe_step U self (acc, d, it, s)))
                = step_size (ms_state (maybe_step U self (acc, d, it, s)))
                    * newton_step_size_factor self
         else min_step_size_factor self * step_size (ms_state (maybe_step U self (acc, d, it, s)))
                \<le> new_step_size (ms_iterand (maybe_step U self (acc, d, it, s)))
              \<and> new_step_size (ms_iterand (maybe_step U self (acc, d, it, s)))
                \<le> max_step_size_factor self
                     * step_size (ms_state (maybe_step U self (acc, d, it, s))))
     \<and> (time it < next_time \<longrightarrow>
          0 < new_step_size (ms_iterand (step_entry self jacobian_fn next_time d it s))
          \<and> new_step_size (ms_iterand (step_entry self jacobian_fn next_time d it s))
                \<le> new_step_size it
          \<and> new_step_size (ms_iterand (step_entry self jacobian_fn next_time d it s))
                \<le> next_time - time it)
     \<and> (\<forall>n' d' it' s' state_vec' ts'.
          advance_loop U self jacobian_fn solution_times (n, d, it, s, state_vec, ts)
            = Some (n', d', it', s', state_vec', ts')
          \<longrightarrow> positive_step_sizes it' s')"
proof -
  let ?r = "maybe_step U self (acc, d, it, s)"
  let ?h = "step_size (ms_state ?r)"
  note c = maybe_step_new_step_size_cases [of U self acc d it s]
  have p: "positive_step_sizes (ms_iterand ?r) (ms_state ?r)"
    by (rule maybe_step_positive [OF assms])
  then have h: "0 < ?h" by (simp add: positive_step_sizes_def)
  from assms(1) have f: "min_step_size_factor self \<le> max_step_size_factor self"
    by (simp add: positive_factors_def)
  have b: "min_step_size_factor self * ?h \<le> new_step_size (ms_iterand ?r)
           \<and> new_step_size (ms_iterand ?r) \<le> max_step_size_factor self * ?h"
    if "should_update_step_size (ms_iterand ?r)"
      and "at_newton_converged (maybe_step_attempt U self d it s)"
  proof -
    from c(4) [OF that] obtain k e where
      "new_step_size (ms_iterand ?r) = next_step_size ?h k e (safety_factor self)
         (min_step_size_factor self) (max_step_size_factor self)" by blast
    with next_step_size_bounds [OF h f] show ?thesis by simp
  qed
  have clamp: "0 < new_step_size (ms_iterand (step_entry self jacobian_fn next_time d it s))
          \<and> new_step_size (ms_iterand (step_entry self jacobian_fn next_time d it s))
                \<le> new_step_size it
          \<and> new_step_size (ms_iterand (step_entry self jacobian_fn next_time d it s))
                \<le> next_time - time it" if "time it < next_time"
    using that assms(2)
    by (simp add: positive_step_sizes_def step_entry_def step_clamp_def step_jacobian_def
        ms_iterand_def np_where_def Let_def)
  have run: "positive_step_sizes it' s'"
    if "advance_loop U self jacobian_fn solution_times (n, d, it, s, state_vec, ts)
            = Some (n', d', it', s', state_vec', ts')" for n' d' it' s' state_vec' ts'
    by (rule advance_loop_positive [OF assms that])
  from p c(1) c(2) c(3) b clamp run show ?thesis by (intro conjI) auto
qed

theorem step_sizes_positive_and_bounded_witness:
  "positive_factors (stub_solver (Some 1) [1 / 2, 1 / 2, 1 / 2])
   \<and> positive_step_sizes it0 s0
   \<and> positive_step_sizes
        (ms_iterand (maybe_step (stub_util True) (stub_solver (Some 1) [1 / 2, 1 / 2, 1 / 2])
           (False, d0, it0, s0)))
        (ms_state (maybe_step (stub_util True) (stub_solver (Some 1) [1 / 2, 1 / 2, 1 / 2])
           (False, d0, it0, s0)))
   \<and> time it0 < 3
   \<and> 0 < new_step_size (ms_iterand (step_entry (stub_solver (Some 1) [1 / 2, 1 / 2, 1 / 2])
             (\<lambda>t y. [[0]]) 3 d0 it0 s0))
   \<and> positive_step_sizes
        \<lparr>jacobian_mat = [[0]], jacobian_is_up_to_date = False, new_step_size = 1,
         num_steps = 2, num_steps_same_size = 2, should_update_jacobian = False,
         should_update_step_size = False, time = 2, unitary = [[0]], upper = [[0]]\<rparr> s0"
proof -
  let ?self = "stub_solver (Some 1) [1 / 2, 1 / 2, 1 / 2]"
  have f: "positive_factors ?self" by (simp add: positive_factors_def stub_solver_def)
  have p: "positive_step_sizes it0 s0"
    by (simp add: positive_step_sizes_def it0_def s0_def)
  have t: "time it0 < 3" by (simp add: it0_def)
  have init: "initial_advance_state s0 0 1 2 = (0, d0, it0, s0, [[0], [0]], [0, 0])"
    by (simp add: initial_advance_state_def d0_def it0_def s0_def numeral_2_eq_2)
  have "advance_loop (stub_util True) ?self (\<lambda>t y. [[0]]) [3, 5]
     (initial_advance_state s0 0 1 2) =
   Some (1,
     \<lparr>num_jacobian_evaluations = 2, num_matrix_factorizations = 2,
      num_ode_fn_evaluations = 2, status = - 1\<rparr>,
     \<lparr>jacobian_mat = [[0]], jacobian_is_up_to_date = False, new_step_size = 1,
      num_steps = 2, num_steps_same_size = 2, should_update_jacobian = False,
      should_update_step_size = False, time = 2, unitary = [[0]], upper = [[0]]\<rparr>,
     s0, [[1], [0]], [3, 0])"
    by (rule stub_run) (simp_all add: stub_solver_def jax_index_def)
  then have run: "advance_loop (stub_util True) ?self (\<lambda>t y. [[0]]) [3, 5]
     (0, d0, it0, s0, [[0], [0]], [0, 0]) =
   Some (1,
     \<lparr>num_jacobian_evaluations = 2, num_matrix_factorizations = 2,
      num_ode_fn_evaluations = 2, status = - 1\<rparr>,
     \<lparr>jacobian_mat = [[0]], jacobian_is_up_to_date = False, new_step_size = 1,
      num_steps = 2, num_steps_same_size = 2, should_update_jacobian = False,
      should_update_step_size = False, time = 2, unitary = [[0]], upper = [[0]]\<rparr>,
     s0, [[1], [0]], [3, 0])"
    by (simp only: init)
  from step_sizes_positive_and_bounded [OF f p, where U = "stub_util True" and acc = False
      and d = d0 and next_time = 3 and jacobian_fn = "\<lambda>t y. [[0]]"
      and solution_times = "[3, 5]" and n = 0 and state_vec = "[[0], [0]]" and ts = "[0, 0]"]
    t run f p
  show ?thesis by blast
qed

subsection \<open>The outputs when the budget is used up\<close>

text \<open>Claim C4, as stated: when the budget of steps is used up, \<open>status = -1\<close>, the slots
  filled before the failure hold (time, state) pairs of output times actually reached,
  and every slot not yet filled still holds its initial zero. It does not hold of the
  slot that was being advanced to: \<^verbatim>\<open>advance_to_solution_time\<close> writes it after its
  loop whatever the status. With a budget of one step, output times 3 and 5 and step
  size 1, the budget is found used up at time 1, the run stops at time 2, and slot 0,
  not filled until then, holds the time 3, which was not reached.\<close>

theorem exhausted_budget_outputs_counterexample:
  "solve (stub_util True) (stub_solver (Some 1) []) (\<lambda>t y. [0]) 0 [1] [3, 5] (\<lambda>t y. [[0]]) =
     Some \<lparr>times = [3, 0], states = [[1], [0]],
           diagnostics = \<lparr>num_jacobian_evaluations = 2, num_matrix_factorizations = 2,
             num_ode_fn_evaluations = 2, status = - 1\<rparr>,
           solver_internal_state = s0\<rparr>
   \<and> advance_loop (stub_util True)
       (fst (initialize_solver_internal_state (stub_util True) (stub_solver (Some 1) [])
               (\<lambda>t y. [0]) 0 [1]))
       (\<lambda>t y. [[0]]) [3, 5] (initial_advance_state s0 0 1 2) =
     Some (1,
       \<lparr>num_jacobian_evaluations = 2, num_matrix_factorizations = 2,
        num_ode_fn_evaluations = 2, status = - 1\<rparr>,
       \<lparr>jacobian_mat = [[0]], jacobian_is_up_to_date = False, new_step_size = 1,
        num_steps = 2, num_steps_same_size = 2, should_update_jacobian = False,
        should_update_step_size = False, time = 2, unitary = [[0]], upper = [[0]]\<rparr>,
       s0, [[1], [0]], [3, 0])"
proof -
  let ?self1 = "fst (initialize_solver_internal_state (stub_util True) (stub_solver (Some 1) [])
               (\<lambda>t y. [0]) 0 [1])"
  have a: "max_num_steps ?self1 = Some 1" "\<not> evaluate_jacobian_lazily ?self1"
    by (simp_all add: stub_initialize) (simp_all add: stub_solver_def)
  have b: "\<bar>jax_index (error_coefficients ?self1) 1\<bar> < 1"
    by (simp add: stub_initialize stub_first_error_coefficient)
  note run = stub_run [OF a(1) b a(2)]
  have si: "snd (initialize_solver_internal_state (stub_util True) (stub_solver (Some 1) [])
               (\<lambda>t y. [0]) 0 [1]) = s0"
    by (simp add: stub_initialize)
  have len: "length [1 :: real] = 1" "length [3, 5 :: real] = 2" by simp_all
  have "solve (stub_util True) (stub_solver (Some 1) []) (\<lambda>t y. [0]) 0 [1] [3, 5] (\<lambda>t y. [[0]]) =
     Some \<lparr>times = [3, 0], states = [[1], [0]],
           diagnostics = \<lparr>num_jacobian_evaluations = 2, num_matrix_factorizations = 2,
             num_ode_fn_evaluations = 2, status = - 1\<rparr>,
           solver_internal_state = s0\<rparr>"
    by (simp only: solve_unfold si len run) simp
  with run show ?thesis by (intro conjI)
qed

text \<open>Claim C4, amended. Under a budget of \<open>m \<ge> 0\<close> steps \<^verbatim>\<open>_solve\<close> returns, after
  \<open>n\<close> passes of its loop, with status 0 or \<open>-1\<close>. Status \<open>-1\<close> is the budget used up:
  the counter of attempts is then \<open>m + 1\<close>, against at most \<open>m\<close> with status 0, and with
  status 0 every slot is filled. Every slot \<open>i < n\<close> holds the requested output time of
  its index and the state estimate the solver had at the end of pass \<open>i\<close> (row 0 of its
  history); that pass began with status 0 and within the budget, and if it ended with
  status 0 the solver's time had reached the requested time, as is the case of every
  pass but the last. So the slots filled before the failure hold pairs for output times
  actually reached. With status \<open>-1\<close> the last filled slot, \<open>n - 1\<close>, is the one that
  was being advanced to when the budget ran out: it is written all the same, with its
  requested output time and the state estimate the solver stopped at, whether or not
  that time was reached. Every slot from \<open>n\<close> on holds its initial zero in both
  arrays.\<close>

theorem exhausted_budget_outputs:
  assumes "max_num_steps self = Some m" and "0 \<le> m"
  shows "\<exists>n d it s sv ts.
       solve U self ode_fn initial_time initial_state solution_times jacobian_fn
         = Some \<lparr>times = ts, states = sv, diagnostics = d, solver_internal_state = s\<rparr>
     \<and> n \<le> length solution_times
     \<and> length ts = length solution_times \<and> length sv = length solution_times
     \<and> solve_passes U self ode_fn initial_time initial_state solution_times jacobian_fn n
         = Some (int n, d, it, s, sv, ts)
     \<and> (status d = 0 \<and> n = length solution_times \<and> num_steps it \<le> m
        \<or> status d = - 1 \<and> 0 < n \<and> num_steps it = m + 1)
     \<and> (\<forall>i<n. \<exists>da ita sa sva tsa db itb sb svb tsb.
            solve_passes U self ode_fn initial_time initial_state solution_times jacobian_fn i
              = Some (int i, da, ita, sa, sva, tsa)
          \<and> status da = 0 \<and> num_steps ita \<le> m
          \<and> solve_passes U self ode_fn initial_time initial_state solution_times jacobian_fn
              (Suc i) = Some (int (Suc i), db, itb, sb, svb, tsb)
          \<and> ts ! i = solution_times ! i
          \<and> sv ! i = jax_index (backward_differences sb) 0
          \<and> (status db = 0 \<longrightarrow> solution_times ! i \<le> time itb)
          \<and> (Suc i < n \<longrightarrow> status db = 0))
     \<and> (\<forall>i. n \<le> i \<and> i < length solution_times \<longrightarrow>
            ts ! i = 0 \<and> sv ! i = replicate (length initial_state) 0)"
proof -
  let ?I = "initialize_solver_internal_state U self ode_fn initial_time initial_state"
  let ?k = "length initial_state" and ?N = "length solution_times"
  let ?P = "solve_passes U self ode_fn initial_time initial_state solution_times jacobian_fn"
  have m: "max_num_steps (fst ?I) = Some m" by (simp add: initialize_keeps_budget assms(1))
  note init = initial_within_budget(1) [OF assms(2), where s = "snd ?I"
      and ?t0.0 = initial_time and k = ?k and N = ?N]
    initial_within_budget(2) [OF assms(2), where s = "snd ?I"
      and ?t0.0 = initial_time and k = ?k]
  let ?d0 = "\<lparr>num_jacobian_evaluations = 0, num_matrix_factorizations = 0,
                 num_ode_fn_evaluations = 0, status = 0\<rparr>"
  let ?it0 = "\<lparr>jacobian_mat = replicate ?k (replicate ?k 0), jacobian_is_up_to_date = False,
             new_step_size = step_size (snd ?I), num_steps = 0, num_steps_same_size = 0,
             should_update_jacobian = True, should_update_step_size = False,
             time = initial_time,
             unitary = replicate ?k (replicate ?k 0), upper = replicate ?k (replicate ?k 0)\<rparr>"
  let ?sv0 = "replicate ?N (replicate ?k (0::real))" and ?ts0 = "replicate ?N (0::real)"
  from advance_loop_budget [OF m init(2), where U = U and jacobian_fn = jacobian_fn
      and solution_times = solution_times and n = 0 and s = "snd ?I"
      and state_vec = ?sv0 and ts = ?ts0]
  obtain fin where
    l: "advance_loop U (fst ?I) jacobian_fn solution_times (0, ?d0, ?it0, snd ?I, ?sv0, ?ts0)
          = Some fin"
    by blast
  have P: "?P j = advance_steps U (fst ?I) jacobian_fn solution_times j
                    (0, ?d0, ?it0, snd ?I, ?sv0, ?ts0)" for j
    unfolding solve_passes_eq init(1) ..
  have b: "status ?d0 = 0" "num_steps ?it0 \<le> m" "length ?sv0 = ?N" "length ?ts0 = ?N"
    using assms(2) by simp_all
  from advance_loop_trace [OF m l b, folded P]
  obtain n d it s sv ts where fin: "fin = (int n, d, it, s, sv, ts)"
    and nN: "n \<le> ?N" and Pn: "?P n = Some fin"
    and lens: "length sv = ?N" "length ts = ?N"
    and st: "status d = 0 \<and> n = ?N \<and> num_steps it \<le> m
        \<or> status d = - 1 \<and> 0 < n \<and> num_steps it = m + 1"
    and r: "\<forall>i<n. \<exists>da ita sa sva tsa db itb sb svb tsb.
            ?P i = Some (int i, da, ita, sa, sva, tsa)
          \<and> status da = 0 \<and> num_steps ita \<le> m
          \<and> ?P (Suc i) = Some (int (Suc i), db, itb, sb, svb, tsb)
          \<and> ts ! i = solution_times ! i
          \<and> sv ! i = jax_index (backward_differences sb) 0
          \<and> (status db = 0 \<longrightarrow> solution_times ! i \<le> time itb)"
    and zz: "\<forall>i. n \<le> i \<and> i < ?N \<longrightarrow> ts ! i = ?ts0 ! i \<and> sv ! i = ?sv0 ! i"
    by blast
  have r2: "\<forall>i<n. \<exists>da ita sa sva tsa db itb sb svb tsb.
            ?P i = Some (int i, da, ita, sa, sva, tsa)
          \<and> status da = 0 \<and> num_steps ita \<le> m
          \<and> ?P (Suc i) = Some (int (Suc i), db, itb, sb, svb, tsb)
          \<and> ts ! i = solution_times ! i
          \<and> sv ! i = jax_index (backward_differences sb) 0
          \<and> (status db = 0 \<longrightarrow> solution_times ! i \<le> time itb)
          \<and> (Suc i < n \<longrightarrow> status db = 0)"
  proof (intro allI impI)
    fix i assume i: "i < n"
    from r [rule_format, OF i] obtain da ita sa sva tsa db itb sb svb tsb where
      o: "?P i = Some (int i, da, ita, sa, sva, tsa)"
        "status da = 0" "num_steps ita \<le> m"
        "?P (Suc i) = Some (int (Suc i), db, itb, sb, svb, tsb)"
        "ts ! i = solution_times ! i"
        "sv ! i = jax_index (backward_differences sb) 0"
        "status db = 0 \<longrightarrow> solution_times ! i \<le> time itb"
      by blast
    have o8: "Suc i < n \<longrightarrow> status db = 0"
    proof
      assume "Suc i < n"
      from r [rule_format, OF this] obtain da' ita' sa' sva' tsa' where
        "?P (Suc i) = Some (int (Suc i), da', ita', sa', sva', tsa')" "status da' = 0"
        by blast
      with o(4) show "status db = 0" by simp
    qed
    from o o8 show "\<exists>da ita sa sva tsa db itb sb svb tsb.
            ?P i = Some (int i, da, ita, sa, sva, tsa)
          \<and> status da = 0 \<and> num_steps ita \<le> m
          \<and> ?P (Suc i) = Some (int (Suc i), db, itb, sb, svb, tsb)
          \<and> ts ! i = solution_times ! i
          \<and> sv ! i = jax_index (backward_differences sb) 0
          \<and> (status db = 0 \<longrightarrow> solution_times ! i \<le> time itb)
          \<and> (Suc i < n \<longrightarrow> status db = 0)"
      by blast
  qed
  from zz have z2: "\<forall>i. n \<le> i \<and> i < ?N \<longrightarrow> ts ! i = 0 \<and> sv ! i = replicate ?k 0"
    by simp
  have sol: "solve U self ode_fn initial_time initial_state solution_times jacobian_fn
      = Some \<lparr>times = ts, states = sv, diagnostics = d, solver_internal_state = s\<rparr>"
    by (simp add: solve_unfold init(1) l fin)
  from Pn fin have Pn': "?P n = Some (int n, d, it, s, sv, ts)" by simp
  from sol nN lens(2) lens(1) Pn' st r2 z2 show ?thesis by blast
qed

theorem exhausted_budget_outputs_witness:
  "max_num_steps (stub_solver (Some 1) []) = Some 1 \<and> (0 :: int) \<le> 1
   \<and> (\<exists>n d it s sv ts.
       solve (stub_util True) (stub_solver (Some 1) []) (\<lambda>t y. [0]) 0 [1] [1, 5] (\<lambda>t y. [[0]])
         = Some \<lparr>times = ts, states = sv, diagnostics = d, solver_internal_state = s\<rparr>
     \<and> n \<le> length [1, 5 :: real]
     \<and> length ts = length [1, 5 :: real] \<and> length sv = length [1, 5 :: real]
     \<and> solve_passes (stub_util True) (stub_solver (Some 1) []) (\<lambda>t y. [0]) 0 [1] [1, 5]
           (\<lambda>t y. [[0]]) n
         = Some (int n, d, it, s, sv, ts)
     \<and> (status d = 0 \<and> n = length [1, 5 :: real] \<and> num_steps it \<le> 1
        \<or> status d = - 1 \<and> 0 < n \<and> num_steps it = 1 + 1)
     \<and> (\<forall>i<n. \<exists>da ita sa sva tsa db itb sb svb tsb.
            solve_passes (stub_util True) (stub_solver (Some 1) []) (\<lambda>t y. [0]) 0 [1] [1, 5]
                (\<lambda>t y. [[0]]) i
              = Some (int i, da, ita, sa, sva, tsa)
          \<and> status da = 0 \<and> num_steps ita \<le> 1
          \<and> solve_passes (stub_util True) (stub_solver (Some 1) []) (\<lambda>t y. [0]) 0 [1] [1, 5]
                (\<lambda>t y. [[0]]) (Suc i)
              = Some (int (Suc i), db, itb, sb, svb, tsb)
          \<and> ts ! i = [1, 5] ! i
          \<and> sv ! i = jax_index (backward_differences sb) 0
          \<and> (status db = 0 \<longrightarrow> [1, 5] ! i \<le> time itb)
          \<and> (Suc i < n \<longrightarrow> status db = 0))
     \<and> (\<forall>i. n \<le> i \<and> i < length [1, 5 :: real] \<longrightarrow>
            ts ! i = 0 \<and> sv ! i = replicate (length [1 :: real]) 0))
   \<and> solve_passes (stub_util True) (stub_solver (Some 1) []) (\<lambda>t y. [0]) 0 [1] [1, 5]
        (\<lambda>t y. [[0]]) (Suc 0)
      = Some (1,
           \<lparr>num_jacobian_evaluations = 1, num_matrix_factorizations = 1,
            num_ode_fn_evaluations = 1, status = 0\<rparr>,
           \<lparr>jacobian_mat = [[0]], jacobian_is_up_to_date = False, new_step_size = 1,
            num_steps = 1, num_steps_same_size = 1, should_update_jacobian = False,
            should_update_step_size = False, time = 1, unitary = [[0]], upper = [[0]]\<rparr>,
           s0, [[1], [0]], [1, 0])
   \<and> solve_passes (stub_util True) (stub_solver (Some 1) []) (\<lambda>t y. [0]) 0 [1] [1, 5]
        (\<lambda>t y. [[0]]) (Suc (Suc 0))
      = Some (2,
           \<lparr>num_jacobian_evaluations = 2, num_matrix_factorizations = 2,
            num_ode_fn_evaluations = 2, status = - 1\<rparr>,
           \<lparr>jacobian_mat = [[0]], jacobian_is_up_to_date = False, new_step_size = 1,
            num_steps = 2, num_steps_same_size = 2, should_update_jacobian = False,
            should_update_step_size = False, time = 2, unitary = [[0]], upper = [[0]]\<rparr>,
           s0, [[1], [1]], [1, 5])"
proof -
  let ?self1 = "fst (initialize_solver_internal_state (stub_util True) (stub_solver (Some 1) [])
               (\<lambda>t y. [0]) 0 [1])"
  have h1: "max_num_steps (stub_solver (Some 1) []) = Some 1" by (simp add: stub_solver_def)
  have h2: "(0 :: int) \<le> 1" by simp
  note t = exhausted_budget_outputs [OF h1 h2, where U = "stub_util True"
      and ode_fn = "\<lambda>t y. [0]" and initial_time = 0 and initial_state = "[1]"
      and solution_times = "[1, 5]" and jacobian_fn = "\<lambda>t y. [[0]]"]
  have a: "max_num_steps ?self1 = Some 1" "\<not> evaluate_jacobian_lazily ?self1"
    by (simp_all add: stub_initialize) (simp_all add: stub_solver_def)
  have b: "\<bar>jax_index (error_coefficients ?self1) 1\<bar> < 1"
    by (simp add: stub_initialize stub_first_error_coefficient)
  note p = stub_passes [OF a(1) b a(2)]
  have si: "snd (initialize_solver_internal_state (stub_util True) (stub_solver (Some 1) [])
               (\<lambda>t y. [0]) 0 [1]) = s0"
    by (simp add: stub_initialize)
  have init: "initial_advance_state s0 0 (length [1 :: real]) (length [1, 5 :: real])
      = (0, d0, it0, s0, [[0], [0]], [0, 0])"
    by (simp add: initial_advance_state_def d0_def it0_def s0_def numeral_2_eq_2)
  have p1: "solve_passes (stub_util True) (stub_solver (Some 1) []) (\<lambda>t y. [0]) 0 [1] [1, 5]
        (\<lambda>t y. [[0]]) (Suc 0)
      = Some (1,
           \<lparr>num_jacobian_evaluations = 1, num_matrix_factorizations = 1,
            num_ode_fn_evaluations = 1, status = 0\<rparr>,
           \<lparr>jacobian_mat = [[0]], jacobian_is_up_to_date = False, new_step_size = 1,
            num_steps = 1, num_steps_same_size = 1, should_update_jacobian = False,
            should_update_step_size = False, time = 1, unitary = [[0]], upper = [[0]]\<rparr>,
           s0, [[1], [0]], [1, 0])"
    by (simp only: solve_passes_eq si init advance_steps.simps bind.bind_lunit p(1))
  have p2: "solve_passes (stub_util True) (stub_solver (Some 1) []) (\<lambda>t y. [0]) 0 [1] [1, 5]
        (\<lambda>t y. [[0]]) (Suc (Suc 0))
      = Some (2,
           \<lparr>num_jacobian_evaluations = 2, num_matrix_factorizations = 2,
            num_ode_fn_evaluations = 2, status = - 1\<rparr>,
           \<lparr>jacobian_mat = [[0]], jacobian_is_up_to_date = False, new_step_size = 1,
            num_steps = 2, num_steps_same_size = 2, should_update_jacobian = False,
            should_update_step_size = False, time = 2, unitary = [[0]], upper = [[0]]\<rparr>,
           s0, [[1], [1]], [1, 5])"
    by (simp only: solve_passes_eq si init advance_steps.simps bind.bind_lunit p)
  from h1 h2 t p1 p2 show ?thesis by (intro conjI)
qed

end
